theory Spec2Isabelle
  imports Main "HOL-Library.Multiset"
begin

section \<open>Data model (src/types.ts)\<close>

datatype Suit = hearts | diamonds | clubs | spades

text \<open>The thirteen rank strings \<^verbatim>\<open>'A' | '2' | ... | '10' | 'J' | 'Q' | 'K'\<close>.\<close>

datatype Rank = RA | R2 | R3 | R4 | R5 | R6 | R7 | R8 | R9 | R10 | RJ | RQ | RK

text \<open>\<^verbatim>\<open>interface Card { id: string; suit: Suit; rank: Rank }\<close>. The field \<^verbatim>\<open>id\<close> is
  named \<open>id_card\<close> here, since \<open>id\<close> is the identity function of HOL.\<close>

record Card =
  id_card :: string
  suit :: Suit
  rank :: Rank

datatype GameStatus = dealing | player_turn | ai_turn | game_over | selecting_suit

text \<open>\<^verbatim>\<open>winner: 'player' | 'ai' | null\<close> is \<open>Winner option\<close>, \<open>None\<close> for \<^verbatim>\<open>null\<close>.\<close>

datatype Winner = player | ai

text \<open>\<^verbatim>\<open>lastAction\<close> is a display string built from one of ten fixed templates (the
  source's templates are Chinese text). A value of \<open>Message\<close> names the template and carries
  the rank and suit interpolated into it, so two messages are equal exactly when the
  strings of the source are.\<close>

datatype Message =
    MsgGameStart
  | MsgDeckEmptySkip
  | MsgPlayerDrew Rank Suit
  | MsgPlayerPlayedEight
  | MsgPlayerPlayed Rank Suit
  | MsgSuitChanged Suit
  | MsgAiPlayed Rank Suit
  | MsgAiPlayedEight Suit
  | MsgAiDrew
  | MsgAiSkip

record GameState =
  deck :: "Card list"
  discardPile :: "Card list"
  playerHand :: "Card list"
  aiHand :: "Card list"
  currentSuit :: Suit
  currentRank :: Rank
  status :: GameStatus
  winner :: "Winner option"
  lastAction :: Message

text \<open>The message of the only \<^verbatim>\<open>Error\<close> that \<^verbatim>\<open>initGame\<close> throws.\<close>

datatype SetupError = NoInitialDiscard

text \<open>The three \<^verbatim>\<open>useState\<close> cells of \<^verbatim>\<open>App\<close>: the game snapshot (\<^verbatim>\<open>null\<close> before the
  first initialization), the pending wild card and the error message.\<close>

record App =
  gameState :: "GameState option"
  pendingEight :: "Card option"
  error :: "SetupError option"

section \<open>Rules\<close>

text \<open>Modelled from the spec: \<^verbatim>\<open>isValidMove\<close> is imported from \<^verbatim>\<open>./constants\<close>, which is not
  among the source files. Section 4.2 of the specification: a card is playable iff
  \<^verbatim>\<open>card.rank === '8'\<close> OR \<^verbatim>\<open>card.suit === currentSuit\<close> OR \<^verbatim>\<open>card.rank === currentRank\<close>.\<close>

definition isValidMove :: "Card \<Rightarrow> Suit \<Rightarrow> Rank \<Rightarrow> bool" where
  "isValidMove crd cs cr \<longleftrightarrow> rank crd = R8 \<or> suit crd = cs \<or> rank crd = cr"

definition checkWinner :: "GameState \<Rightarrow> Winner option" where
  "checkWinner state =
     (if length (playerHand state) = 0 then Some player
      else if length (aiHand state) = 0 then Some ai
      else None)"

section \<open>The human player's operations\<close>

text \<open>\<^verbatim>\<open>handleDraw\<close>: \<^verbatim>\<open>newDeck.pop()\<close> takes the last element of the deck array.\<close>

definition handleDraw :: "App \<Rightarrow> App" where
  "handleDraw a =
     (case gameState a of
        None \<Rightarrow> a
      | Some g \<Rightarrow>
          if status g \<noteq> player_turn then a
          else if length (deck g) = 0 then
            a\<lparr>gameState := Some (g\<lparr>status := ai_turn, lastAction := MsgDeckEmptySkip\<rparr>)\<rparr>
          else
            let drawnCard = last (deck g);
                newDeck = butlast (deck g);
                newHand = playerHand g @ [drawnCard];
                canPlayDrawn = isValidMove drawnCard (currentSuit g) (currentRank g)
            in a\<lparr>gameState := Some (g\<lparr>deck := newDeck, playerHand := newHand,
                   lastAction := MsgPlayerDrew (rank drawnCard) (suit drawnCard),
                   status := (if canPlayDrawn then player_turn else ai_turn)\<rparr>)\<rparr>)"

text \<open>\<^verbatim>\<open>handlePlayCard\<close>: the hand loses every card whose id is the played card's; the
  function does not look the card up in the hand.\<close>

definition handlePlayCard :: "Card \<Rightarrow> App \<Rightarrow> App" where
  "handlePlayCard crd a =
     (case gameState a of
        None \<Rightarrow> a
      | Some g \<Rightarrow>
          if status g \<noteq> player_turn then a
          else if \<not> isValidMove crd (currentSuit g) (currentRank g) then a
          else
            let newHand = filter (\<lambda>c. id_card c \<noteq> id_card crd) (playerHand g);
                newDiscardPile = crd # discardPile g
            in if rank crd = R8 then
                 a\<lparr>pendingEight := Some crd,
                   gameState := Some (g\<lparr>playerHand := newHand, discardPile := newDiscardPile,
                     status := selecting_suit, lastAction := MsgPlayerPlayedEight\<rparr>)\<rparr>
               else
                 let newState = g\<lparr>playerHand := newHand, discardPile := newDiscardPile,
                       currentSuit := suit crd, currentRank := rank crd,
                       status := ai_turn,
                       lastAction := MsgPlayerPlayed (rank crd) (suit crd)\<rparr>
                 in (case checkWinner newState of
                       Some w \<Rightarrow>
                         a\<lparr>gameState := Some (newState\<lparr>status := game_over, winner := Some w\<rparr>)\<rparr>
                     | None \<Rightarrow> a\<lparr>gameState := Some newState\<rparr>))"

text \<open>\<^verbatim>\<open>handleSuitSelection\<close>: guarded by the game snapshot and the pending card only.\<close>

definition handleSuitSelection :: "Suit \<Rightarrow> App \<Rightarrow> App" where
  "handleSuitSelection s a =
     (case gameState a of
        None \<Rightarrow> a
      | Some g \<Rightarrow>
          (case pendingEight a of
             None \<Rightarrow> a
           | Some _ \<Rightarrow>
               a\<lparr>pendingEight := None,
                 gameState := Some (g\<lparr>currentSuit := s, currentRank := R8,
                   status := ai_turn, lastAction := MsgSuitChanged s\<rparr>)\<rparr>))"

text \<open>The playable indicator of the render function: \<^verbatim>\<open>isPlayable\<close> of a hand card.\<close>

definition isPlayable :: "GameState \<Rightarrow> Card \<Rightarrow> bool" where
  "isPlayable g crd \<longleftrightarrow>
     status g = player_turn \<and> isValidMove crd (currentSuit g) (currentRank g)"

section \<open>Initialization\<close>

text \<open>The loop of \<^verbatim>\<open>initGame\<close> that looks for the first discard:
  \<^verbatim>\<open>while (deck[i] && deck[i].rank === '8') i++\<close>. An index past the end reads
  \<^verbatim>\<open>undefined\<close>, which ends the loop.\<close>

function firstDiscardIndex :: "Card list \<Rightarrow> nat \<Rightarrow> nat" where
  "firstDiscardIndex d i =
     (if i < length d \<and> rank (d ! i) = R8 then firstDiscardIndex d (Suc i) else i)"
  by pat_completeness auto
termination
  by (relation "measure (\<lambda>(d, i). length d - i)") auto

declare firstDiscardIndex.simps [simp del]

text \<open>\<^verbatim>\<open>initGame\<close>. The deck that \<^verbatim>\<open>createDeck()\<close> returns is the parameter \<open>d\<close>:
  \<^verbatim>\<open>createDeck\<close> is imported from \<^verbatim>\<open>./constants\<close>, which is not among the source files, and
  its result is random. \<^verbatim>\<open>deck.splice(0, 8)\<close> removes and returns the first eight elements
  (fewer when the array is shorter); \<^verbatim>\<open>deck.splice(i, 1)\<close> removes the element at \<open>i\<close>.
  The \<^verbatim>\<open>catch\<close> stores the message and leaves the game snapshot as it was.\<close>

definition initGame :: "Card list \<Rightarrow> App \<Rightarrow> App" where
  "initGame d a =
     (let playerHand0 = take 8 d;
          deck1 = drop 8 d;
          aiHand0 = take 8 deck1;
          deck2 = drop 8 deck1;
          i = firstDiscardIndex deck2 0
      in if \<not> i < length deck2 then a\<lparr>error := Some NoInitialDiscard\<rparr>
         else
           let discard0 = deck2 ! i;
               deck3 = take i deck2 @ drop (Suc i) deck2
           in a\<lparr>gameState := Some
                \<lparr>deck = deck3, discardPile = [discard0], playerHand = playerHand0,
                 aiHand = aiHand0, currentSuit = suit discard0, currentRank = rank discard0,
                 status = player_turn, winner = None, lastAction = MsgGameStart\<rparr>\<rparr>)"

text \<open>The values of the three state cells before the first \<^verbatim>\<open>initGame\<close>.\<close>

definition initialApp :: App where
  "initialApp = \<lparr>gameState = None, pendingEight = None, error = None\<rparr>"

text \<open>Modelled from the spec: what \<^verbatim>\<open>createDeck()\<close> (in the absent \<^verbatim>\<open>./constants\<close>)
  guarantees, section 4.1: 52 cards, exactly one per (suit, rank) pair, with identifiers
  that are unique. There are 52 pairs, so 52 cards with distinct pairs carry every pair.\<close>

definition isFreshDeck :: "Card list \<Rightarrow> bool" where
  "isFreshDeck d \<longleftrightarrow>
     length d = 52 \<and> distinct (map id_card d) \<and> distinct (map (\<lambda>c. (suit c, rank c)) d)"

text \<open>The four zones of a snapshot, as one list.\<close>

definition zones :: "GameState \<Rightarrow> Card list" where
  "zones g = deck g @ discardPile g @ playerHand g @ aiHand g"

section \<open>The computer's turn\<close>

text \<open>The suit counter of the computer's turn,
  \<^verbatim>\<open>newHand.reduce((acc, c) => { acc[c.suit] = (acc[c.suit] || 0) + 1; return acc }, {})\<close>.
  The object is an association list in insertion order, which is the order of
  \<^verbatim>\<open>Object.keys\<close>: a key that is present keeps its place, a new key goes to the end.\<close>

fun bumpCount :: "(Suit \<times> nat) list \<Rightarrow> Suit \<Rightarrow> (Suit \<times> nat) list" where
  "bumpCount [] s = [(s, 1)]"
| "bumpCount ((k, n) # kvs) s =
     (if k = s then (k, n + 1) # kvs else (k, n) # bumpCount kvs s)"

definition suitCounts :: "Card list \<Rightarrow> (Suit \<times> nat) list" where
  "suitCounts newHand = foldl (\<lambda>acc c. bumpCount acc (suit c)) [] newHand"

text \<open>\<^verbatim>\<open>suitCounts[s]\<close>, read only at keys of the object.\<close>

definition countOf :: "(Suit \<times> nat) list \<Rightarrow> Suit \<Rightarrow> nat" where
  "countOf kvs s = (case map_of kvs s of Some n \<Rightarrow> n | None \<Rightarrow> 0)"

text \<open>\<^verbatim>\<open>Object.keys(suitCounts).sort((a, b) => suitCounts[b] - suitCounts[a])[0] || 'hearts'\<close>.
  \<^verbatim>\<open>Array.prototype.sort\<close> is stable, and so is \<open>sort_key\<close>; the comparator orders by
  descending count, which is ascending order of the negated count.\<close>

definition pickSuit :: "Card list \<Rightarrow> Suit" where
  "pickSuit newHand =
     (let sc = suitCounts newHand;
          sorted_keys = sort_key (\<lambda>s. - int (countOf sc s)) (map fst sc)
      in case sorted_keys of [] \<Rightarrow> hearts | s # _ \<Rightarrow> s)"

text \<open>\<^verbatim>\<open>playable.find(c => c.rank !== '8') || playable[0]\<close>, used where the list is not
  empty.\<close>

definition cardToPlay :: "Card list \<Rightarrow> Card" where
  "cardToPlay cs =
     (case find (\<lambda>c. rank c \<noteq> R8) cs of Some c \<Rightarrow> c | None \<Rightarrow> cs ! 0)"

text \<open>\<^verbatim>\<open>const playable = aiHand.filter(c => isValidMove(c, currentSuit, currentRank))\<close>.\<close>

definition playable :: "GameState \<Rightarrow> Card list" where
  "playable g = filter (\<lambda>c. isValidMove c (currentSuit g) (currentRank g)) (aiHand g)"

text \<open>The body of the timer callback of the effect under the comment \<^verbatim>\<open>AI Logic\<close>, which
  runs when the status is \<open>ai_turn\<close>: one turn of the computer.\<close>

definition aiEffect :: "App \<Rightarrow> App" where
  "aiEffect a =
     (case gameState a of
        None \<Rightarrow> a
      | Some g \<Rightarrow>
          if status g \<noteq> ai_turn then a
          else if length (playable g) > 0 then
            let ctp = cardToPlay (playable g);
                newHand = filter (\<lambda>c. id_card c \<noteq> id_card ctp) (aiHand g);
                newDiscardPile = ctp # discardPile g;
                nextSuit = (if rank ctp = R8 then pickSuit newHand else suit ctp);
                nextAction = (if rank ctp = R8 then MsgAiPlayedEight nextSuit
                              else MsgAiPlayed (rank ctp) (suit ctp));
                newState = g\<lparr>aiHand := newHand, discardPile := newDiscardPile,
                  currentSuit := nextSuit, currentRank := rank ctp,
                  status := player_turn, lastAction := nextAction\<rparr>
            in (case checkWinner newState of
                  Some w \<Rightarrow>
                    a\<lparr>gameState := Some (newState\<lparr>status := game_over, winner := Some w\<rparr>)\<rparr>
                | None \<Rightarrow> a\<lparr>gameState := Some newState\<rparr>)
          else if length (deck g) > 0 then
            let drawn = last (deck g);
                newDeck = butlast (deck g);
                newHand = aiHand g @ [drawn];
                canPlayDrawn = isValidMove drawn (currentSuit g) (currentRank g)
            in a\<lparr>gameState := Some (g\<lparr>deck := newDeck, aiHand := newHand,
                   lastAction := MsgAiDrew,
                   status := (if canPlayDrawn then ai_turn else player_turn)\<rparr>)\<rparr>
          else
            a\<lparr>gameState := Some (g\<lparr>status := player_turn, lastAction := MsgAiSkip\<rparr>)\<rparr>)"

text \<open>For statements about the suit choice: how many cards of a hand have a given suit,
  and the elements of a list in the order of their first occurrence.\<close>

definition occurrences :: "Card list \<Rightarrow> Suit \<Rightarrow> nat" where
  "occurrences hand s = length (filter (\<lambda>c. suit c = s) hand)"

fun firstSeen :: "'a list \<Rightarrow> 'a list" where
  "firstSeen [] = []"
| "firstSeen (x # xs) = x # filter (\<lambda>y. y \<noteq> x) (firstSeen xs)"

section \<open>The operations as one step function\<close>

datatype Op = Initialize "Card list" | Draw | Play Card | ChooseSuit Suit | ResolveComputerTurn

fun step :: "Op \<Rightarrow> App \<Rightarrow> App" where
  "step (Initialize d) a = initGame d a"
| "step Draw a = handleDraw a"
| "step (Play c) a = handlePlayCard c a"
| "step (ChooseSuit s) a = handleSuitSelection s a"
| "step ResolveComputerTurn a = aiEffect a"

text \<open>When the rendered page offers an operation. The restart button calls
  \<^verbatim>\<open>initGame\<close> at any time, on a deck as \<^verbatim>\<open>createDeck\<close> makes it. The draw pile is rendered,
  with \<^verbatim>\<open>handleDraw\<close> as its click handler, while the deck is not empty. Every card of the
  player's hand is rendered with \<^verbatim>\<open>handlePlayCard(card)\<close> as its click handler. The suit
  selector is rendered while the status is \<open>selecting_suit\<close>. The effect of the computer's
  turn is armed while the status is \<open>ai_turn\<close>.\<close>

definition statusIs :: "App \<Rightarrow> GameStatus \<Rightarrow> bool" where
  "statusIs a st \<longleftrightarrow> (case gameState a of None \<Rightarrow> False | Some g \<Rightarrow> status g = st)"

fun offered :: "Op \<Rightarrow> App \<Rightarrow> bool" where
  "offered (Initialize d) a \<longleftrightarrow> isFreshDeck d"
| "offered Draw a \<longleftrightarrow>
     (case gameState a of None \<Rightarrow> False | Some g \<Rightarrow> length (deck g) > 0)"
| "offered (Play c) a \<longleftrightarrow>
     (case gameState a of None \<Rightarrow> False | Some g \<Rightarrow> c \<in> set (playerHand g))"
| "offered (ChooseSuit s) a \<longleftrightarrow> statusIs a selecting_suit"
| "offered ResolveComputerTurn a \<longleftrightarrow> statusIs a ai_turn"

text \<open>The states a game can be in: from the initial cells, by operations that are
  offered.\<close>

inductive reachable :: "App \<Rightarrow> bool" where
  reachable_initial: "reachable initialApp"
| reachable_step: "reachable a \<Longrightarrow> offered op a \<Longrightarrow> reachable (step op a)"

text \<open>Running a list of operations, and whether each one is offered when its turn comes.\<close>

fun run :: "Op list \<Rightarrow> App \<Rightarrow> App" where
  "run [] a = a"
| "run (op # ops) a = run ops (step op a)"

fun offeredAll :: "Op list \<Rightarrow> App \<Rightarrow> bool" where
  "offeredAll [] a \<longleftrightarrow> True"
| "offeredAll (op # ops) a \<longleftrightarrow> offered op a \<and> offeredAll ops (step op a)"

section \<open>Concrete states\<close>

text \<open>A small snapshot in the player's turn: the target is the nine of hearts, the top of
  the deck (its last element) is the king of hearts.\<close>

definition exampleGame :: GameState where
  "exampleGame =
     \<lparr>deck = [\<lparr>id_card = ''c2'', suit = clubs, rank = R2\<rparr>,
              \<lparr>id_card = ''hK'', suit = hearts, rank = RK\<rparr>],
      discardPile = [\<lparr>id_card = ''h9'', suit = hearts, rank = R9\<rparr>],
      playerHand = [\<lparr>id_card = ''h5'', suit = hearts, rank = R5\<rparr>,
                    \<lparr>id_card = ''s8'', suit = spades, rank = R8\<rparr>],
      aiHand = [\<lparr>id_card = ''d9'', suit = diamonds, rank = R9\<rparr>,
                \<lparr>id_card = ''c8'', suit = clubs, rank = R8\<rparr>,
                \<lparr>id_card = ''dQ'', suit = diamonds, rank = RQ\<rparr>,
                \<lparr>id_card = ''cJ'', suit = clubs, rank = RJ\<rparr>],
      currentSuit = hearts, currentRank = R9, status = player_turn, winner = None,
      lastAction = MsgGameStart\<rparr>"

definition exampleApp :: App where
  "exampleApp = \<lparr>gameState = Some exampleGame, pendingEight = None, error = None\<rparr>"

text \<open>A full deck in the order \<^verbatim>\<open>createDeck\<close> might return it: the player is dealt the
  ace to eight of hearts, the computer eight cards of the ranks 9 to K outside hearts,
  the seventeenth card is the nine of hearts, and the last seven cards are the other
  cards of the ranks 9 to K outside hearts.\<close>

definition lastEightDeck :: "Card list" where
  "lastEightDeck =
     [\<lparr>id_card = ''hA'', suit = hearts, rank = RA\<rparr>,
      \<lparr>id_card = ''h2'', suit = hearts, rank = R2\<rparr>,
      \<lparr>id_card = ''h3'', suit = hearts, rank = R3\<rparr>,
      \<lparr>id_card = ''h4'', suit = hearts, rank = R4\<rparr>,
      \<lparr>id_card = ''h5'', suit = hearts, rank = R5\<rparr>,
      \<lparr>id_card = ''h6'', suit = hearts, rank = R6\<rparr>,
      \<lparr>id_card = ''h7'', suit = hearts, rank = R7\<rparr>,
      \<lparr>id_card = ''h8'', suit = hearts, rank = R8\<rparr>,
      \<lparr>id_card = ''d9'', suit = diamonds, rank = R9\<rparr>,
      \<lparr>id_card = ''d10'', suit = diamonds, rank = R10\<rparr>,
      \<lparr>id_card = ''dJ'', suit = diamonds, rank = RJ\<rparr>,
      \<lparr>id_card = ''dQ'', suit = diamonds, rank = RQ\<rparr>,
      \<lparr>id_card = ''dK'', suit = diamonds, rank = RK\<rparr>,
      \<lparr>id_card = ''c9'', suit = clubs, rank = R9\<rparr>,
      \<lparr>id_card = ''c10'', suit = clubs, rank = R10\<rparr>,
      \<lparr>id_card = ''cJ'', suit = clubs, rank = RJ\<rparr>,
      \<lparr>id_card = ''h9'', suit = hearts, rank = R9\<rparr>,
      \<lparr>id_card = ''h10'', suit = hearts, rank = R10\<rparr>,
      \<lparr>id_card = ''hJ'', suit = hearts, rank = RJ\<rparr>,
      \<lparr>id_card = ''hQ'', suit = hearts, rank = RQ\<rparr>,
      \<lparr>id_card = ''hK'', suit = hearts, rank = RK\<rparr>,
      \<lparr>id_card = ''d2'', suit = diamonds, rank = R2\<rparr>,
      \<lparr>id_card = ''d3'', suit = diamonds, rank = R3\<rparr>,
      \<lparr>id_card = ''d4'', suit = diamonds, rank = R4\<rparr>,
      \<lparr>id_card = ''d5'', suit = diamonds, rank = R5\<rparr>,
      \<lparr>id_card = ''d6'', suit = diamonds, rank = R6\<rparr>,
      \<lparr>id_card = ''d7'', suit = diamonds, rank = R7\<rparr>,
      \<lparr>id_card = ''d8'', suit = diamonds, rank = R8\<rparr>,
      \<lparr>id_card = ''cA'', suit = clubs, rank = RA\<rparr>,
      \<lparr>id_card = ''c2'', suit = clubs, rank = R2\<rparr>,
      \<lparr>id_card = ''c3'', suit = clubs, rank = R3\<rparr>,
      \<lparr>id_card = ''c4'', suit = clubs, rank = R4\<rparr>,
      \<lparr>id_card = ''c5'', suit = clubs, rank = R5\<rparr>,
      \<lparr>id_card = ''c6'', suit = clubs, rank = R6\<rparr>,
      \<lparr>id_card = ''c7'', suit = clubs, rank = R7\<rparr>,
      \<lparr>id_card = ''c8'', suit = clubs, rank = R8\<rparr>,
      \<lparr>id_card = ''sA'', suit = spades, rank = RA\<rparr>,
      \<lparr>id_card = ''s2'', suit = spades, rank = R2\<rparr>,
      \<lparr>id_card = ''s3'', suit = spades, rank = R3\<rparr>,
      \<lparr>id_card = ''s4'', suit = spades, rank = R4\<rparr>,
      \<lparr>id_card = ''s5'', suit = spades, rank = R5\<rparr>,
      \<lparr>id_card = ''s6'', suit = spades, rank = R6\<rparr>,
      \<lparr>id_card = ''s7'', suit = spades, rank = R7\<rparr>,
      \<lparr>id_card = ''s8'', suit = spades, rank = R8\<rparr>,
      \<lparr>id_card = ''dA'', suit = diamonds, rank = RA\<rparr>,
      \<lparr>id_card = ''cQ'', suit = clubs, rank = RQ\<rparr>,
      \<lparr>id_card = ''cK'', suit = clubs, rank = RK\<rparr>,
      \<lparr>id_card = ''s9'', suit = spades, rank = R9\<rparr>,
      \<lparr>id_card = ''s10'', suit = spades, rank = R10\<rparr>,
      \<lparr>id_card = ''sJ'', suit = spades, rank = RJ\<rparr>,
      \<lparr>id_card = ''sQ'', suit = spades, rank = RQ\<rparr>,
      \<lparr>id_card = ''sK'', suit = spades, rank = RK\<rparr>]"

text \<open>A game on that deck: the player plays the hearts in ascending order, the computer
  has no legal card and draws each time, and the player's last card is the eight of
  hearts, for which the player then chooses hearts.\<close>

definition lastEightOps :: "Op list" where
  "lastEightOps =
     [Initialize lastEightDeck,
      Play (lastEightDeck ! 0), ResolveComputerTurn,
      Play (lastEightDeck ! 1), ResolveComputerTurn,
      Play (lastEightDeck ! 2), ResolveComputerTurn,
      Play (lastEightDeck ! 3), ResolveComputerTurn,
      Play (lastEightDeck ! 4), ResolveComputerTurn,
      Play (lastEightDeck ! 5), ResolveComputerTurn,
      Play (lastEightDeck ! 6), ResolveComputerTurn,
      Play (lastEightDeck ! 7), ChooseSuit hearts]"

section \<open>Lemmas about the operations\<close>

lemma checkWinner_case:
  "(case checkWinner ns of
      Some w \<Rightarrow> a\<lparr>gameState := Some (ns\<lparr>status := game_over, winner := Some w\<rparr>)\<rparr>
    | None \<Rightarrow> a\<lparr>gameState := Some ns\<rparr>) =
   a\<lparr>gameState := Some
       (if playerHand ns = [] then ns\<lparr>status := game_over, winner := Some player\<rparr>
        else if aiHand ns = [] then ns\<lparr>status := game_over, winner := Some ai\<rparr>
        else ns)\<rparr>"
  by (simp add: checkWinner_def)

lemma handlePlayCard_changes:
  assumes "gameState a = Some g" "status g = player_turn"
    "isValidMove c (currentSuit g) (currentRank g)"
  shows "\<exists>g'. gameState (handlePlayCard c a) = Some g' \<and> discardPile g' = c # discardPile g"
  using assms by (simp add: handlePlayCard_def Let_def checkWinner_case)

lemma cardToPlay_in_set:
  assumes "cs \<noteq> []"
  shows "cardToPlay cs \<in> set cs"
proof (cases "find (\<lambda>c. rank c \<noteq> R8) cs")
  case None
  with assms show ?thesis by (simp add: cardToPlay_def)
next
  case (Some c)
  then have "c \<in> set cs" by (auto simp add: find_Some_iff)
  with Some show ?thesis by (simp add: cardToPlay_def)
qed

lemma aiEffect_play:
  assumes "gameState a = Some g" and "status g = ai_turn" and "playable g \<noteq> []"
  shows "\<exists>g'. gameState (aiEffect a) = Some g' \<and>
     aiHand g' = filter (\<lambda>c. id_card c \<noteq> id_card (cardToPlay (playable g))) (aiHand g) \<and>
     discardPile g' = cardToPlay (playable g) # discardPile g \<and>
     deck g' = deck g \<and> playerHand g' = playerHand g \<and>
     currentRank g' = rank (cardToPlay (playable g)) \<and>
     currentSuit g' =
       (if rank (cardToPlay (playable g)) = R8 then pickSuit (aiHand g')
        else suit (cardToPlay (playable g))) \<and>
     status g' = (if playerHand g = [] \<or> aiHand g' = [] then game_over else player_turn) \<and>
     winner g' = (if playerHand g = [] then Some player
                  else if aiHand g' = [] then Some ai else winner g)"
  using assms by (simp add: aiEffect_def Let_def checkWinner_case)

lemma aiEffect_draw:
  assumes "gameState a = Some g" and "status g = ai_turn" and "playable g = []"
    and "deck g \<noteq> []"
  shows "aiEffect a = a\<lparr>gameState := Some (g\<lparr>deck := butlast (deck g),
     aiHand := aiHand g @ [last (deck g)], lastAction := MsgAiDrew,
     status := (if isValidMove (last (deck g)) (currentSuit g) (currentRank g)
                then ai_turn else player_turn)\<rparr>)\<rparr>"
  using assms by (simp add: aiEffect_def Let_def)

lemma aiEffect_skip:
  assumes "gameState a = Some g" and "status g = ai_turn" and "playable g = []"
    and "deck g = []"
  shows "aiEffect a = a\<lparr>gameState := Some (g\<lparr>status := player_turn, lastAction := MsgAiSkip\<rparr>)\<rparr>"
  using assms by (simp add: aiEffect_def Let_def)

lemma playable_empty_iff:
  "playable g = [] \<longleftrightarrow>
     \<not> (\<exists>x \<in> set (aiHand g). isValidMove x (currentSuit g) (currentRank g))"
  by (simp add: playable_def filter_empty_conv)

lemma cardToPlay_playable:
  assumes "playable g \<noteq> []"
  shows "cardToPlay (playable g) \<in> set (aiHand g)"
    and "isValidMove (cardToPlay (playable g)) (currentSuit g) (currentRank g)"
  using cardToPlay_in_set [OF assms] by (simp_all add: playable_def)

lemma aiEffect_status:
  assumes "gameState a = Some g" and "status g = ai_turn"
  shows "\<exists>g'. gameState (aiEffect a) = Some g' \<and>
           (status g' = player_turn \<or> status g' = ai_turn \<or> status g' = game_over)"
  using assms by (simp add: aiEffect_def Let_def checkWinner_case)

lemma aiEffect_other_status:
  assumes "gameState a = Some g" and "status g \<noteq> ai_turn"
  shows "aiEffect a = a"
  using assms by (simp add: aiEffect_def)

lemma aiEffect_no_game: "gameState a = None \<Longrightarrow> aiEffect a = a"
  by (simp add: aiEffect_def)

lemma aiEffect_pendingEight: "pendingEight (aiEffect a) = pendingEight a"
proof (cases "gameState a")
  case None
  then show ?thesis by (simp add: aiEffect_no_game)
next
  case (Some g)
  then show ?thesis by (simp add: aiEffect_def Let_def checkWinner_case)
qed

lemma handlePlayCard_selecting_suit:
  assumes "statusIs (handlePlayCard c a) selecting_suit"
  shows "gameState (handlePlayCard c a) = gameState a \<or>
         rank c = R8 \<and> pendingEight (handlePlayCard c a) = Some c"
proof (cases "gameState a")
  case None
  then show ?thesis by (simp add: handlePlayCard_def)
next
  case (Some g)
  show ?thesis
  proof (cases "rank c = R8")
    case True
    with Some show ?thesis by (simp add: handlePlayCard_def Let_def)
  next
    case False
    with Some assms show ?thesis
      by (simp add: handlePlayCard_def Let_def checkWinner_case statusIs_def split: if_splits)
  qed
qed

section \<open>Lemmas about initialization\<close>

lemma firstDiscardIndex_takeWhile:
  "i \<le> length d \<Longrightarrow>
   firstDiscardIndex d i = i + length (takeWhile (\<lambda>c. rank c = R8) (drop i d))"
proof (induction d i rule: firstDiscardIndex.induct)
  case (1 d i)
  show ?case
  proof (cases "i < length d \<and> rank (d ! i) = R8")
    case True
    then have "drop i d = d ! i # drop (Suc i) d" by (simp add: Cons_nth_drop_Suc)
    with True "1.IH" show ?thesis by (simp add: firstDiscardIndex.simps [of d i])
  next
    case False
    show ?thesis
    proof (cases "i < length d")
      case True
      then have "drop i d = d ! i # drop (Suc i) d" by (simp add: Cons_nth_drop_Suc)
      with True False show ?thesis by (simp add: firstDiscardIndex.simps [of d i])
    next
      case False
      then have "firstDiscardIndex d i = i" by (subst firstDiscardIndex.simps) simp
      with False show ?thesis by simp
    qed
  qed
qed

lemma firstDiscardIndex_0:
  "firstDiscardIndex d 0 = length (takeWhile (\<lambda>c. rank c = R8) d)"
  using firstDiscardIndex_takeWhile [of 0 d] by simp

lemma scan_all_eights:
  assumes "\<forall>c \<in> set d. rank c = R8"
  shows "\<not> firstDiscardIndex d 0 < length d"
proof -
  from assms have "takeWhile (\<lambda>c. rank c = R8) d = d" by (simp add: takeWhile_eq_all_conv)
  then have "length (takeWhile (\<lambda>c. rank c = R8) d) = length d" by (rule arg_cong)
  then show ?thesis unfolding firstDiscardIndex_0 by linarith
qed

lemma scan_finds:
  assumes "\<not> (\<forall>c \<in> set d. rank c = R8)"
  shows "\<exists>eights x rest. d = eights @ x # rest \<and> (\<forall>c \<in> set eights. rank c = R8) \<and>
     rank x \<noteq> R8 \<and> firstDiscardIndex d 0 = length eights"
proof -
  let ?P = "\<lambda>c. rank c = R8"
  from assms have ne: "dropWhile ?P d \<noteq> []" by (auto simp add: dropWhile_eq_Nil_conv)
  then obtain x rest where dw: "dropWhile ?P d = x # rest" by (cases "dropWhile ?P d") auto
  then have "\<not> ?P x" using hd_dropWhile [OF ne] by simp
  moreover have "d = takeWhile ?P d @ x # rest" using dw takeWhile_dropWhile_id [of ?P d] by simp
  moreover have "\<forall>c \<in> set (takeWhile ?P d). rank c = R8" by (auto dest: set_takeWhileD)
  ultimately show ?thesis using firstDiscardIndex_0 [of d] by blast
qed

lemma initGame_error:
  assumes "\<forall>c \<in> set (drop 16 d). rank c = R8"
  shows "initGame d a = a\<lparr>error := Some NoInitialDiscard\<rparr>"
  using scan_all_eights [of "drop 16 d"] assms by (simp add: initGame_def Let_def)

lemma initGame_success:
  assumes "drop 16 d = eights @ x # rest" and "\<forall>c \<in> set eights. rank c = R8"
    and "rank x \<noteq> R8"
  shows "initGame d a = a\<lparr>gameState := Some
       \<lparr>deck = eights @ rest, discardPile = [x], playerHand = take 8 d,
        aiHand = take 8 (drop 8 d), currentSuit = suit x, currentRank = rank x,
        status = player_turn, winner = None, lastAction = MsgGameStart\<rparr>\<rparr>"
proof -
  from assms have not8: "\<not> (\<forall>c \<in> set (drop 16 d). rank c = R8)" by auto
  from assms(1,2,3) have tw: "takeWhile (\<lambda>c. rank c = R8) (drop 16 d) = eights"
    by (simp add: takeWhile_append2)
  then have i: "firstDiscardIndex (drop 16 d) 0 = length eights"
    by (simp add: firstDiscardIndex_0)
  from assms(1) have nth: "drop 16 d ! length eights = x" by simp
  from assms(1) have tk: "take (length eights) (drop 16 d) = eights"
    and dr: "drop (Suc (length eights)) (drop 16 d) = rest" by simp_all
  from assms(1) have lt: "length eights < length (drop 16 d)" by simp
  have d2: "drop 8 (drop 8 d) = drop 16 d" by simp
  show ?thesis
    unfolding initGame_def Let_def d2 i using lt nth tk dr by simp
qed


lemma UNIV_Suit: "(UNIV :: Suit set) = {hearts, diamonds, clubs, spades}"
proof -
  have "s \<in> {hearts, diamonds, clubs, spades}" for s by (cases s) simp_all
  then show ?thesis by blast
qed

lemma distinct_suits_le_4:
  fixes ss :: "Suit list"
  assumes "distinct ss"
  shows "length ss \<le> 4"
proof -
  from assms have "length ss = card (set ss)" by (simp add: distinct_card)
  also have "\<dots> \<le> card (UNIV :: Suit set)"
  proof (rule card_mono)
    show "finite (UNIV :: Suit set)" by (simp add: UNIV_Suit)
    show "set ss \<subseteq> UNIV" by (rule subset_UNIV)
  qed
  also have "\<dots> = 4" by (simp add: UNIV_Suit)
  finally show ?thesis .
qed

lemma eights_le_4:
  assumes "distinct (map (\<lambda>c. (suit c, rank c)) xs)"
  shows "length (filter (\<lambda>c. rank c = R8) xs) \<le> 4"
proof -
  let ?es = "filter (\<lambda>c. rank c = R8) xs"
  from assms have "distinct (map (\<lambda>c. (suit c, rank c)) ?es)"
    by (simp add: distinct_map_filter)
  moreover have "map (\<lambda>c. (suit c, rank c)) ?es = map (\<lambda>s. (s, R8)) (map suit ?es)"
    by (induction xs) simp_all
  ultimately have "distinct (map (\<lambda>s. (s, R8)) (map suit ?es))" by (simp only:)
  then have "distinct (map suit ?es)" by (metis distinct_map)
  then have "length (map suit ?es) \<le> 4" by (rule distinct_suits_le_4)
  then show ?thesis by simp
qed

lemma fresh_deck_has_discard:
  assumes "isFreshDeck d"
  shows "\<not> (\<forall>c \<in> set (drop 16 d). rank c = R8)"
proof
  assume all8: "\<forall>c \<in> set (drop 16 d). rank c = R8"
  from assms have len: "length d = 52"
    and dist: "distinct (map (\<lambda>c. (suit c, rank c)) d)" by (simp_all add: isFreshDeck_def)
  from dist have "distinct (map (\<lambda>c. (suit c, rank c)) (drop 16 d))"
    by (simp add: drop_map [symmetric] distinct_drop)
  then have "length (filter (\<lambda>c. rank c = R8) (drop 16 d)) \<le> 4" by (rule eights_le_4)
  moreover from all8 have "filter (\<lambda>c. rank c = R8) (drop 16 d) = drop 16 d" by simp
  ultimately show False using len by simp
qed

section \<open>Lemmas about the computer's choice\<close>

lemma countOf_bumpCount:
  "countOf (bumpCount kvs s) t = (if t = s then countOf kvs s + 1 else countOf kvs t)"
  by (induction kvs s rule: bumpCount.induct) (auto simp add: countOf_def)

lemma keys_bumpCount:
  "map fst (bumpCount kvs s) =
     (if s \<in> set (map fst kvs) then map fst kvs else map fst kvs @ [s])"
  by (induction kvs s rule: bumpCount.induct) auto

lemma countOf_foldl:
  "countOf (foldl (\<lambda>acc c. bumpCount acc (suit c)) acc hand) s =
     countOf acc s + occurrences hand s"
  by (induction hand arbitrary: acc) (auto simp add: countOf_bumpCount occurrences_def)

lemma countOf_suitCounts: "countOf (suitCounts hand) s = occurrences hand s"
proof -
  have "countOf [] s = 0" by (simp add: countOf_def)
  then show ?thesis by (simp add: suitCounts_def countOf_foldl)
qed

lemma keys_foldl:
  "map fst (foldl (\<lambda>acc c. bumpCount acc (suit c)) acc hand) =
     map fst acc @ filter (\<lambda>s. s \<notin> set (map fst acc)) (firstSeen (map suit hand))"
proof (induction hand arbitrary: acc)
  case Nil
  then show ?case by simp
next
  case (Cons c cs)
  show ?case
  proof (cases "suit c \<in> set (map fst acc)")
    case True
    then have "(\<lambda>y. y \<noteq> suit c \<and> y \<notin> set (map fst acc)) = (\<lambda>y. y \<notin> set (map fst acc))"
      by auto
    with True show ?thesis using Cons.IH [of "bumpCount acc (suit c)"]
      by (simp add: keys_bumpCount conj_commute)
  next
    case False
    then show ?thesis using Cons.IH [of "bumpCount acc (suit c)"]
      by (simp add: keys_bumpCount conj_commute)
  qed
qed

lemma keys_suitCounts: "map fst (suitCounts hand) = firstSeen (map suit hand)"
  by (simp add: suitCounts_def keys_foldl)

lemma set_firstSeen: "set (firstSeen xs) = set xs"
  by (induction xs) auto

lemma hd_filter_firstSeen:
  "hd (filter P (firstSeen xs)) = hd (filter P xs)"
proof (induction xs)
  case Nil
  then show ?case by simp
next
  case (Cons x xs)
  show ?case
  proof (cases "P x")
    case True
    then show ?thesis by simp
  next
    case False
    then have "(\<lambda>y. y \<noteq> x \<and> P y) = P" by auto
    with False Cons.IH show ?thesis by (simp add: conj_commute)
  qed
qed


lemma hd_sort_key_least:
  assumes "xs \<noteq> []"
  shows "\<forall>x \<in> set xs. f (hd (sort_key f xs)) \<le> f x"
proof -
  from assms have ne: "sort_key f xs \<noteq> []" by (metis length_sort length_0_conv)
  then obtain y ys where ys: "sort_key f xs = y # ys" by (cases "sort_key f xs") auto
  have "sorted (map f (sort_key f xs))" by (rule sorted_sort_key)
  with ys have "\<forall>z \<in> set ys. f y \<le> f z" by simp
  then have "\<forall>z \<in> set (y # ys). f y \<le> f z" by simp
  with ys show ?thesis by (metis list.sel(1) set_sort)
qed

lemma hd_sort_key_stable:
  assumes "xs \<noteq> []"
  shows "hd (sort_key f xs) = hd (filter (\<lambda>y. f y = f (hd (sort_key f xs))) xs)"
proof -
  from assms have ne: "sort_key f xs \<noteq> []" by (metis length_sort length_0_conv)
  then obtain y ys where ys: "sort_key f xs = y # ys" by (cases "sort_key f xs") auto
  have "filter (\<lambda>z. f z = f y) (sort_key f xs) = filter (\<lambda>z. f z = f y) xs"
    by (rule sort_key_stable)
  with ys have "hd (filter (\<lambda>z. f z = f y) xs) = y" by (metis (mono_tags, lifting) filter.simps(2) list.sel(1))
  with ys show ?thesis by simp
qed

lemma pickSuit_empty: "pickSuit [] = hearts"
  by (simp add: pickSuit_def suitCounts_def)

lemma pickSuit_most_frequent:
  assumes "hand \<noteq> []"
  shows "\<forall>s. occurrences hand s \<le> occurrences hand (pickSuit hand)"
    and "\<exists>pre x post. hand = pre @ x # post \<and> suit x = pickSuit hand \<and>
           (\<forall>y \<in> set pre. occurrences hand (suit y) < occurrences hand (pickSuit hand))"
proof -
  let ?keys = "map fst (suitCounts hand)"
  let ?f = "\<lambda>s. - int (countOf (suitCounts hand) s)"
  from assms have kne: "?keys \<noteq> []" by (cases hand) (simp_all add: keys_suitCounts)
  then have sne: "sort_key ?f ?keys \<noteq> []" by (metis length_sort length_0_conv)
  then have pick: "pickSuit hand = hd (sort_key ?f ?keys)"
    by (cases "sort_key ?f ?keys") (simp_all add: pickSuit_def Let_def)
  have f: "?f s = - int (occurrences hand s)" for s by (simp add: countOf_suitCounts)
  have keys: "set ?keys = suit ` set hand" by (simp add: keys_suitCounts set_firstSeen)
  from hd_sort_key_least [OF kne, of ?f] pick
  have least: "\<forall>s \<in> suit ` set hand. occurrences hand s \<le> occurrences hand (pickSuit hand)"
    unfolding keys f by simp
  show most: "\<forall>s. occurrences hand s \<le> occurrences hand (pickSuit hand)"
  proof
    fix s
    show "occurrences hand s \<le> occurrences hand (pickSuit hand)"
    proof (cases "s \<in> suit ` set hand")
      case True
      with least show ?thesis by blast
    next
      case False
      then have "filter (\<lambda>c. suit c = s) hand = []" by (auto simp add: filter_empty_conv)
      then show ?thesis by (simp add: occurrences_def)
    qed
  qed
  let ?P = "\<lambda>s. occurrences hand s = occurrences hand (pickSuit hand)"
  from hd_sort_key_stable [OF kne, of ?f] pick
  have "pickSuit hand = hd (filter (\<lambda>s. ?f s = ?f (pickSuit hand)) ?keys)" by simp
  then have "pickSuit hand = hd (filter ?P (firstSeen (map suit hand)))"
    unfolding f keys_suitCounts by simp
  then have hd: "pickSuit hand = hd (filter ?P (map suit hand))"
    by (simp only: hd_filter_firstSeen)
  have "pickSuit hand \<in> set ?keys" using pick sne by (metis hd_in_set set_sort)
  then have "pickSuit hand \<in> suit ` set hand" by (simp only: keys)
  then have "\<exists>x \<in> set hand. ?P (suit x)" by auto
  from split_list_first_prop [OF this] obtain pre x post where
    sp: "hand = pre @ x # post" "?P (suit x)" "\<forall>y \<in> set pre. \<not> ?P (suit y)" by blast
  from sp(3) have "filter ?P (map suit pre) = []" by (simp add: filter_empty_conv)
  with sp(1,2) have "hd (filter ?P (map suit hand)) = suit x" by simp
  with hd have sx: "suit x = pickSuit hand" by simp
  from sp(3) most have "\<forall>y \<in> set pre. occurrences hand (suit y) < occurrences hand (pickSuit hand)"
    by (simp add: order_less_le)
  with sp(1) sx show "\<exists>pre x post. hand = pre @ x # post \<and> suit x = pickSuit hand \<and>
           (\<forall>y \<in> set pre. occurrences hand (suit y) < occurrences hand (pickSuit hand))"
    by blast
qed


lemma find_first:
  assumes "\<forall>y \<in> set pre. \<not> Q y" and "Q x"
  shows "find Q (pre @ x # post) = Some x"
  using assms by (induction pre) simp_all

lemma cardToPlay_non_eight:
  assumes "hand = pre @ x # post"
    and "V x" and "rank x \<noteq> R8"
    and "\<forall>y \<in> set pre. \<not> (V y \<and> rank y \<noteq> R8)"
  shows "cardToPlay (filter V hand) = x"
proof -
  from assms have "filter V hand = filter V pre @ x # filter V post" by simp
  moreover from assms(4) have "\<forall>y \<in> set (filter V pre). \<not> rank y \<noteq> R8" by auto
  ultimately have "find (\<lambda>c. rank c \<noteq> R8) (filter V hand) = Some x"
    using find_first [of "filter V pre" "\<lambda>c. rank c \<noteq> R8" x "filter V post"] assms(3)
    by simp
  then show ?thesis by (simp add: cardToPlay_def)
qed

lemma cardToPlay_all_eights:
  assumes "hand = pre @ x # post"
    and "V x" and "\<forall>y \<in> set pre. \<not> V y"
    and "\<forall>y \<in> set hand. V y \<longrightarrow> rank y = R8"
  shows "cardToPlay (filter V hand) = x"
proof -
  from assms(1,2,3) have fl: "filter V hand = x # filter V post" by simp
  from assms(4) have "find (\<lambda>c. rank c \<noteq> R8) (filter V hand) = None"
    by (simp add: find_None_iff)
  with fl show ?thesis by (simp add: cardToPlay_def)
qed

section \<open>Lemmas about the zones and about reachable states\<close>

lemma mset_filter_other_ids:
  assumes "distinct (map id_card hand)" and "c \<in> set hand"
  shows "mset (filter (\<lambda>x. id_card x \<noteq> id_card c) hand) + {#c#} = mset hand"
  using assms
proof (induction hand)
  case Nil
  then show ?case by simp
next
  case (Cons x xs)
  show ?case
  proof (cases "x = c")
    case True
    with Cons.prems have "id_card c \<notin> id_card ` set xs" by simp
    then have "\<forall>y \<in> set xs. id_card y \<noteq> id_card c" by (metis imageI)
    then have "filter (\<lambda>x. id_card x \<noteq> id_card c) xs = xs" by (simp add: filter_id_conv)
    with True show ?thesis by simp
  next
    case False
    with Cons.prems have in_xs: "c \<in> set xs" by simp
    from Cons.prems have "id_card x \<notin> id_card ` set xs" by simp
    with in_xs have "id_card x \<noteq> id_card c" by (metis imageI)
    with Cons.IH Cons.prems in_xs show ?thesis by simp
  qed
qed

lemma isFreshDeck_mset:
  assumes "mset xs = mset ys" and "isFreshDeck ys"
  shows "isFreshDeck xs"
proof -
  from assms(1) have len: "length xs = length ys" by (rule mset_eq_length)
  from assms(1) have "mset (map id_card xs) = mset (map id_card ys)" by simp
  then have d1: "distinct (map id_card xs) = distinct (map id_card ys)"
    by (rule mset_eq_imp_distinct_iff)
  from assms(1) have "mset (map (\<lambda>c. (suit c, rank c)) xs) = mset (map (\<lambda>c. (suit c, rank c)) ys)"
    by simp
  then have d2: "distinct (map (\<lambda>c. (suit c, rank c)) xs) =
      distinct (map (\<lambda>c. (suit c, rank c)) ys)"
    by (rule mset_eq_imp_distinct_iff)
  from assms(2) len d1 d2 show ?thesis by (simp add: isFreshDeck_def)
qed

lemma fresh_zones_distinct_hand:
  assumes "isFreshDeck (zones g)"
  shows "distinct (map id_card (playerHand g))" and "distinct (map id_card (aiHand g))"
  using assms by (simp_all add: isFreshDeck_def zones_def)

lemma mset_butlast_last:
  assumes "xs \<noteq> []"
  shows "mset (butlast xs) + {#last xs#} = mset xs"
proof -
  from assms have "mset (butlast xs @ [last xs]) = mset xs" by simp
  then show ?thesis by simp
qed

lemma handleDraw_zones:
  assumes "gameState a = Some g"
  shows "\<exists>g'. gameState (handleDraw a) = Some g' \<and> mset (zones g') = mset (zones g)"
proof (cases "status g = player_turn \<and> deck g \<noteq> []")
  case True
  with assms mset_butlast_last [of "deck g"] show ?thesis
    by (simp add: handleDraw_def Let_def zones_def)
next
  case False
  with assms show ?thesis by (auto simp add: handleDraw_def Let_def zones_def)
qed

lemma handlePlayCard_play:
  assumes "gameState a = Some g" and "status g = player_turn"
    and "isValidMove c (currentSuit g) (currentRank g)"
  shows "\<exists>g'. gameState (handlePlayCard c a) = Some g' \<and>
     playerHand g' = filter (\<lambda>x. id_card x \<noteq> id_card c) (playerHand g) \<and>
     discardPile g' = c # discardPile g \<and> deck g' = deck g \<and> aiHand g' = aiHand g"
  using assms by (simp add: handlePlayCard_def Let_def checkWinner_case)

lemma handlePlayCard_zones:
  assumes "gameState a = Some g" and "distinct (map id_card (playerHand g))"
    and "c \<in> set (playerHand g)"
  shows "\<exists>g'. gameState (handlePlayCard c a) = Some g' \<and> mset (zones g') = mset (zones g)"
proof (cases "status g = player_turn \<and> isValidMove c (currentSuit g) (currentRank g)")
  case True
  with handlePlayCard_play [OF assms(1), of c] obtain g' where
    g': "gameState (handlePlayCard c a) = Some g'"
      "playerHand g' = filter (\<lambda>x. id_card x \<noteq> id_card c) (playerHand g)"
      "discardPile g' = c # discardPile g" "deck g' = deck g" "aiHand g' = aiHand g"
    by blast
  from mset_filter_other_ids [OF assms(2,3)] g'
  have "mset (zones g') = mset (zones g)" by (simp add: zones_def)
  with g'(1) show ?thesis by simp
next
  case False
  with assms(1) show ?thesis by (auto simp add: handlePlayCard_def)
qed

lemma handleSuitSelection_zones:
  assumes "gameState a = Some g"
  shows "\<exists>g'. gameState (handleSuitSelection s a) = Some g' \<and> zones g' = zones g"
  using assms by (cases "pendingEight a") (simp_all add: handleSuitSelection_def zones_def)

lemma aiEffect_zones:
  assumes "gameState a = Some g" and "distinct (map id_card (aiHand g))"
  shows "\<exists>g'. gameState (aiEffect a) = Some g' \<and> mset (zones g') = mset (zones g)"
proof (cases "status g = ai_turn")
  case False
  with assms(1) show ?thesis by (simp add: aiEffect_other_status)
next
  case turn: True
  show ?thesis
  proof (cases "playable g = []")
    case True
    show ?thesis
    proof (cases "deck g = []")
      case True
      from aiEffect_skip [OF assms(1) turn \<open>playable g = []\<close> True] show ?thesis
        by (simp add: zones_def)
    next
      case False
      from aiEffect_draw [OF assms(1) turn True False] mset_butlast_last [OF False]
      show ?thesis by (simp add: zones_def)
    qed
  next
    case False
    from aiEffect_play [OF assms(1) turn False] obtain g' where
      g': "gameState (aiEffect a) = Some g'"
        "aiHand g' = filter (\<lambda>c. id_card c \<noteq> id_card (cardToPlay (playable g))) (aiHand g)"
        "discardPile g' = cardToPlay (playable g) # discardPile g"
        "deck g' = deck g" "playerHand g' = playerHand g"
      by blast
    from mset_filter_other_ids [OF assms(2) cardToPlay_playable(1) [OF False]] g'
    have "mset (zones g') = mset (zones g)" by (simp add: zones_def)
    with g'(1) show ?thesis by simp
  qed
qed

lemma reachable_run:
  "reachable a \<Longrightarrow> offeredAll ops a \<Longrightarrow> reachable (run ops a)"
proof (induction ops arbitrary: a)
  case Nil
  then show ?case by simp
next
  case (Cons op ops)
  from Cons.prems have "reachable (step op a)" by (simp add: reachable_step)
  with Cons.IH [of "step op a"] Cons.prems show ?case by simp
qed

lemma reachable_winner_sound:
  assumes "reachable a" and "gameState a = Some g"
  shows "(status g = game_over \<longleftrightarrow> winner g \<noteq> None) \<and>
         (winner g \<noteq> None \<longrightarrow> playerHand g = [] \<or> aiHand g = [])"
  using assms
proof (induction arbitrary: g rule: reachable.induct)
  case reachable_initial
  then show ?case by (simp add: initialApp_def)
next
  case (reachable_step a op)
  show ?case
  proof (cases op)
    case (Initialize d)
    with reachable_step.prems reachable_step.IH show ?thesis
      by (auto simp add: initGame_def Let_def split: if_splits)
  next
    case Draw
    with reachable_step.prems reachable_step.IH show ?thesis
      by (auto simp add: handleDraw_def Let_def split: option.splits if_splits)
  next
    case (Play c)
    with reachable_step.prems reachable_step.IH show ?thesis
      by (auto simp add: handlePlayCard_def Let_def checkWinner_case
          split: option.splits if_splits)
  next
    case (ChooseSuit s)
    with reachable_step.prems reachable_step.hyps(2) reachable_step.IH show ?thesis
      by (auto simp add: handleSuitSelection_def statusIs_def split: option.splits)
  next
    case ResolveComputerTurn
    with reachable_step.prems reachable_step.hyps(2) reachable_step.IH show ?thesis
      by (auto simp add: aiEffect_def Let_def checkWinner_case statusIs_def
          split: option.splits if_splits)
  qed
qed

section \<open>Drawing\<close>

text \<open>C6. In a state whose status is \<open>player_turn\<close>: with a non-empty deck, draw removes
  the top card (the last element) from the deck and appends it to the player's hand, and
  the status stays \<open>player_turn\<close> if that card is a valid move against the current target
  and becomes \<open>ai_turn\<close> otherwise; with an empty deck the status becomes \<open>ai_turn\<close>, no
  card is drawn and no zone changes.\<close>

theorem handleDraw_player_turn:
  assumes "gameState a = Some g" and "status g = player_turn"
  shows "\<exists>g'. gameState (handleDraw a) = Some g' \<and>
           (if deck g = [] then
              status g' = ai_turn \<and> deck g' = [] \<and> playerHand g' = playerHand g
            else
              deck g = deck g' @ [last (deck g)] \<and>
              playerHand g' = playerHand g @ [last (deck g)] \<and>
              status g' = (if isValidMove (last (deck g)) (currentSuit g) (currentRank g)
                           then player_turn else ai_turn)) \<and>
           discardPile g' = discardPile g \<and> aiHand g' = aiHand g"
  using assms by (simp add: handleDraw_def Let_def)

theorem handleDraw_player_turn_witness:
  "gameState exampleApp = Some exampleGame \<and> status exampleGame = player_turn \<and>
   deck exampleGame \<noteq> [] \<and>
   (\<exists>g'. gameState (handleDraw exampleApp) = Some g' \<and>
      playerHand g' = playerHand exampleGame @ [\<lparr>id_card = ''hK'', suit = hearts, rank = RK\<rparr>] \<and>
      deck g' = [\<lparr>id_card = ''c2'', suit = clubs, rank = R2\<rparr>] \<and>
      status g' = player_turn) \<and>
   (\<exists>g'. gameState (handleDraw (exampleApp\<lparr>gameState := Some (exampleGame\<lparr>deck := []\<rparr>)\<rparr>)) =
        Some g' \<and>
      playerHand g' = playerHand exampleGame \<and> deck g' = [] \<and> status g' = ai_turn)"
proof -
  have h1: "gameState exampleApp = Some exampleGame" by (simp add: exampleApp_def)
  have h2: "status exampleGame = player_turn" by (simp add: exampleGame_def)
  have h3: "deck exampleGame = [\<lparr>id_card = ''c2'', suit = clubs, rank = R2\<rparr>,
              \<lparr>id_card = ''hK'', suit = hearts, rank = RK\<rparr>]"
    "currentSuit exampleGame = hearts" "currentRank exampleGame = R9"
    by (simp_all add: exampleGame_def)
  have full: "\<exists>g'. gameState (handleDraw exampleApp) = Some g' \<and>
      playerHand g' = playerHand exampleGame @ [\<lparr>id_card = ''hK'', suit = hearts, rank = RK\<rparr>] \<and>
      deck g' = [\<lparr>id_card = ''c2'', suit = clubs, rank = R2\<rparr>] \<and>
      status g' = player_turn"
    using handleDraw_player_turn [OF h1 h2] by (auto simp add: h3 isValidMove_def)
  let ?a = "exampleApp\<lparr>gameState := Some (exampleGame\<lparr>deck := []\<rparr>)\<rparr>"
  have e1: "gameState ?a = Some (exampleGame\<lparr>deck := []\<rparr>)" by simp
  have e2: "status (exampleGame\<lparr>deck := []\<rparr>) = player_turn" by (simp add: h2)
  have empty: "\<exists>g'. gameState (handleDraw ?a) = Some g' \<and>
      playerHand g' = playerHand exampleGame \<and> deck g' = [] \<and> status g' = ai_turn"
    using handleDraw_player_turn [OF e1 e2] by auto
  from h1 h2 h3(1) full empty show ?thesis by simp
qed

text \<open>C10. In a state whose status is \<open>player_turn\<close>, draw leaves the discard pile, the
  computer's hand, the target suit and rank and the winner as they are: the new snapshot
  is the old one with at most the deck, the player's hand, the status and the last action
  replaced, and the other two state cells are untouched.\<close>

theorem handleDraw_frame:
  assumes "gameState a = Some g" and "status g = player_turn"
  shows "\<exists>g'. handleDraw a = a\<lparr>gameState := Some g'\<rparr> \<and>
           g' = g\<lparr>deck := deck g', playerHand := playerHand g', status := status g',
                  lastAction := lastAction g'\<rparr> \<and>
           discardPile g' = discardPile g \<and> aiHand g' = aiHand g \<and>
           currentSuit g' = currentSuit g \<and> currentRank g' = currentRank g \<and>
           winner g' = winner g"
proof (cases "deck g = []")
  case True
  with assms have "handleDraw a =
      a\<lparr>gameState := Some (g\<lparr>status := ai_turn, lastAction := MsgDeckEmptySkip\<rparr>)\<rparr>"
    by (simp add: handleDraw_def)
  then show ?thesis
    by (intro exI [of _ "g\<lparr>status := ai_turn, lastAction := MsgDeckEmptySkip\<rparr>"]) simp
next
  case False
  define g' where "g' = g\<lparr>deck := butlast (deck g),
      playerHand := playerHand g @ [last (deck g)],
      lastAction := MsgPlayerDrew (rank (last (deck g))) (suit (last (deck g))),
      status := (if isValidMove (last (deck g)) (currentSuit g) (currentRank g)
                 then player_turn else ai_turn)\<rparr>"
  from False assms have "handleDraw a = a\<lparr>gameState := Some g'\<rparr>"
    by (simp add: handleDraw_def Let_def g'_def)
  then show ?thesis
    by (intro exI [of _ g']) (simp add: g'_def)
qed

theorem handleDraw_frame_witness:
  "gameState exampleApp = Some exampleGame \<and> status exampleGame = player_turn \<and>
   (\<exists>g'. handleDraw exampleApp = exampleApp\<lparr>gameState := Some g'\<rparr> \<and>
      g' = exampleGame\<lparr>deck := deck g', playerHand := playerHand g', status := status g',
                  lastAction := lastAction g'\<rparr> \<and>
      discardPile g' = discardPile exampleGame \<and> aiHand g' = aiHand exampleGame \<and>
      currentSuit g' = hearts \<and> currentRank g' = R9 \<and> winner g' = None)"
proof -
  have h1: "gameState exampleApp = Some exampleGame" by (simp add: exampleApp_def)
  have h2: "status exampleGame = player_turn" by (simp add: exampleGame_def)
  have h3: "currentSuit exampleGame = hearts" "currentRank exampleGame = R9"
    "winner exampleGame = None" by (simp_all add: exampleGame_def)
  show ?thesis using h1 h2 h3 handleDraw_frame [OF h1 h2] by simp
qed

section \<open>The legality rule\<close>

text \<open>C7. \<open>isValidMove c s r\<close> holds if and only if the card is an eight, or its suit is
  \<open>s\<close>, or its rank is \<open>r\<close>; and the three call sites evaluate this predicate on the
  current target: the playable indicator is the predicate in the player's turn, a click
  on a card in the player's turn changes the state exactly when the predicate holds, and
  the computer plays a card exactly when its hand has a card for which the predicate
  holds, and then plays such a card.\<close>

theorem isValidMove_at_call_sites:
  "(isValidMove c s r \<longleftrightarrow> rank c = R8 \<or> suit c = s \<or> rank c = r) \<and>
   (isPlayable g c \<longleftrightarrow>
      status g = player_turn \<and> isValidMove c (currentSuit g) (currentRank g)) \<and>
   (gameState a = Some g \<and> status g = player_turn \<longrightarrow>
      (handlePlayCard c a \<noteq> a \<longleftrightarrow> isValidMove c (currentSuit g) (currentRank g))) \<and>
   (gameState a = Some g \<and> status g = ai_turn \<longrightarrow>
      (\<exists>g'. gameState (aiEffect a) = Some g' \<and>
         (length (discardPile g') = Suc (length (discardPile g)) \<longleftrightarrow>
            (\<exists>x \<in> set (aiHand g). isValidMove x (currentSuit g) (currentRank g))) \<and>
         (\<forall>x. discardPile g' = x # discardPile g \<longrightarrow>
            x \<in> set (aiHand g) \<and> isValidMove x (currentSuit g) (currentRank g))))"
proof -
  have play: "handlePlayCard c a \<noteq> a \<longleftrightarrow> isValidMove c (currentSuit g) (currentRank g)"
    if "gameState a = Some g" "status g = player_turn"
  proof (cases "isValidMove c (currentSuit g) (currentRank g)")
    case True
    with that handlePlayCard_changes [of a g c]
    obtain g' where "gameState (handlePlayCard c a) = Some g'"
      "discardPile g' = c # discardPile g" by auto
    with that have "gameState (handlePlayCard c a) \<noteq> gameState a" by auto
    then have "handlePlayCard c a \<noteq> a" by auto
    with True show ?thesis by simp
  next
    case False
    with that show ?thesis by (simp add: handlePlayCard_def)
  qed
  have comp: "\<exists>g'. gameState (aiEffect a) = Some g' \<and>
         (length (discardPile g') = Suc (length (discardPile g)) \<longleftrightarrow>
            (\<exists>x \<in> set (aiHand g). isValidMove x (currentSuit g) (currentRank g))) \<and>
         (\<forall>x. discardPile g' = x # discardPile g \<longrightarrow>
            x \<in> set (aiHand g) \<and> isValidMove x (currentSuit g) (currentRank g))"
    if g: "gameState a = Some g" "status g = ai_turn"
  proof (cases "playable g = []")
    case True
    show ?thesis
    proof (cases "deck g = []")
      case True
      from aiEffect_skip [OF g \<open>playable g = []\<close> True] \<open>playable g = []\<close>
      show ?thesis by (simp add: playable_empty_iff)
    next
      case False
      from aiEffect_draw [OF g True False] True show ?thesis
        by (simp add: playable_empty_iff)
    qed
  next
    case False
    from aiEffect_play [OF g False] obtain g' where
      g': "gameState (aiEffect a) = Some g'"
        "discardPile g' = cardToPlay (playable g) # discardPile g"
      by blast
    from g' cardToPlay_playable [OF False] False show ?thesis
      by (auto simp add: playable_empty_iff)
  qed
  from play comp show ?thesis by (auto simp add: isValidMove_def isPlayable_def)
qed

theorem isValidMove_at_call_sites_witness:
  "isValidMove \<lparr>id_card = ''s8'', suit = spades, rank = R8\<rparr> hearts R9 \<and>
   isValidMove \<lparr>id_card = ''h5'', suit = hearts, rank = R5\<rparr> hearts R9 \<and>
   isValidMove \<lparr>id_card = ''d9'', suit = diamonds, rank = R9\<rparr> hearts R9 \<and>
   \<not> isValidMove \<lparr>id_card = ''c2'', suit = clubs, rank = R2\<rparr> hearts R9 \<and>
   gameState exampleApp = Some exampleGame \<and> status exampleGame = player_turn \<and>
   handlePlayCard \<lparr>id_card = ''h5'', suit = hearts, rank = R5\<rparr> exampleApp \<noteq> exampleApp \<and>
   handlePlayCard \<lparr>id_card = ''c2'', suit = clubs, rank = R2\<rparr> exampleApp = exampleApp \<and>
   isPlayable exampleGame \<lparr>id_card = ''h5'', suit = hearts, rank = R5\<rparr> \<and>
   status (exampleGame\<lparr>status := ai_turn\<rparr>) = ai_turn \<and>
   (\<exists>g'. gameState (aiEffect (exampleApp\<lparr>gameState := Some (exampleGame\<lparr>status := ai_turn\<rparr>)\<rparr>))
           = Some g' \<and>
      length (discardPile g') = Suc (length (discardPile exampleGame)))"
proof -
  let ?h5 = "\<lparr>id_card = ''h5'', suit = hearts, rank = R5\<rparr>"
  let ?c2 = "\<lparr>id_card = ''c2'', suit = clubs, rank = R2\<rparr>"
  let ?d9 = "\<lparr>id_card = ''d9'', suit = diamonds, rank = R9\<rparr>"
  let ?ga = "exampleGame\<lparr>status := ai_turn\<rparr>"
  let ?aa = "exampleApp\<lparr>gameState := Some ?ga\<rparr>"
  have h1: "gameState exampleApp = Some exampleGame" by (simp add: exampleApp_def)
  have h2: "status exampleGame = player_turn" "currentSuit exampleGame = hearts"
    "currentRank exampleGame = R9" by (simp_all add: exampleGame_def)
  have v: "isValidMove \<lparr>id_card = ''s8'', suit = spades, rank = R8\<rparr> hearts R9"
    "isValidMove ?h5 hearts R9" "isValidMove ?d9 hearts R9" "\<not> isValidMove ?c2 hearts R9"
    using isValidMove_at_call_sites [of "\<lparr>id_card = ''s8'', suit = spades, rank = R8\<rparr>" hearts R9]
      isValidMove_at_call_sites [of ?h5 hearts R9]
      isValidMove_at_call_sites [of ?d9 hearts R9]
      isValidMove_at_call_sites [of ?c2 hearts R9]
    by simp_all
  have p1: "handlePlayCard ?h5 exampleApp \<noteq> exampleApp"
    using isValidMove_at_call_sites [of ?h5 _ _ exampleGame exampleApp] h1 h2 v by simp
  have p2: "handlePlayCard ?c2 exampleApp = exampleApp"
    using isValidMove_at_call_sites [of ?c2 _ _ exampleGame exampleApp] h1 h2 v by simp
  have p3: "isPlayable exampleGame ?h5"
    using isValidMove_at_call_sites [of ?h5 _ _ exampleGame] h2 v by simp
  have a1: "gameState ?aa = Some ?ga" "status ?ga = ai_turn" "currentSuit ?ga = hearts"
    "currentRank ?ga = R9" "discardPile ?ga = discardPile exampleGame"
    "?d9 \<in> set (aiHand ?ga)"
    by (simp_all add: exampleGame_def)
  have p4: "\<exists>g'. gameState (aiEffect ?aa) = Some g' \<and>
      length (discardPile g') = Suc (length (discardPile exampleGame))"
  proof -
    from isValidMove_at_call_sites [of ?d9 hearts R9 ?ga ?aa] a1(1,2)
    have "\<exists>g'. gameState (aiEffect ?aa) = Some g' \<and>
         (length (discardPile g') = Suc (length (discardPile ?ga)) \<longleftrightarrow>
            (\<exists>x \<in> set (aiHand ?ga). isValidMove x (currentSuit ?ga) (currentRank ?ga)))"
      by blast
    then obtain g' where g': "gameState (aiEffect ?aa) = Some g'"
      "length (discardPile g') = Suc (length (discardPile ?ga)) \<longleftrightarrow>
         (\<exists>x \<in> set (aiHand ?ga). isValidMove x (currentSuit ?ga) (currentRank ?ga))"
      by blast
    have "\<exists>x \<in> set (aiHand ?ga). isValidMove x (currentSuit ?ga) (currentRank ?ga)"
      using a1(3,4,6) v(3) by (intro bexI [of _ ?d9]) simp_all
    with g' a1(5) show ?thesis by simp
  qed
  show ?thesis using h1 h2 v p1 p2 p3 p4 by simp
qed

section \<open>Playing a card\<close>

text \<open>C2, as amended. \<open>handlePlayCard\<close> returns the state it was given exactly when there
  is no game, or the status is not \<open>player_turn\<close>, or \<open>isValidMove\<close> rejects the card
  against the current target; no error arises. Whether the card is in the player's hand
  plays no part.\<close>

theorem handlePlayCard_noop_iff:
  "handlePlayCard c a = a \<longleftrightarrow>
     (case gameState a of
        None \<Rightarrow> True
      | Some g \<Rightarrow> status g \<noteq> player_turn \<or> \<not> isValidMove c (currentSuit g) (currentRank g))"
proof (cases "gameState a")
  case None
  then show ?thesis by (simp add: handlePlayCard_def)
next
  case (Some g)
  show ?thesis
  proof (cases "status g = player_turn \<and> isValidMove c (currentSuit g) (currentRank g)")
    case True
    with Some handlePlayCard_changes [of a g c]
    obtain g' where "gameState (handlePlayCard c a) = Some g'"
      "discardPile g' = c # discardPile g" by auto
    with Some have "gameState (handlePlayCard c a) \<noteq> gameState a" by auto
    then have "handlePlayCard c a \<noteq> a" by auto
    with Some True show ?thesis by simp
  next
    case False
    with Some show ?thesis by (auto simp add: handlePlayCard_def)
  qed
qed

theorem handlePlayCard_noop_iff_witness:
  "handlePlayCard \<lparr>id_card = ''c2'', suit = clubs, rank = R2\<rparr> exampleApp = exampleApp \<and>
   status exampleGame = player_turn \<and>
   \<not> isValidMove \<lparr>id_card = ''c2'', suit = clubs, rank = R2\<rparr> hearts R9 \<and>
   handlePlayCard \<lparr>id_card = ''h5'', suit = hearts, rank = R5\<rparr>
     (exampleApp\<lparr>gameState := Some (exampleGame\<lparr>status := ai_turn\<rparr>)\<rparr>) =
     exampleApp\<lparr>gameState := Some (exampleGame\<lparr>status := ai_turn\<rparr>)\<rparr>"
  using handlePlayCard_noop_iff [of "\<lparr>id_card = ''c2'', suit = clubs, rank = R2\<rparr>" exampleApp]
    handlePlayCard_noop_iff [of "\<lparr>id_card = ''h5'', suit = hearts, rank = R5\<rparr>"
      "exampleApp\<lparr>gameState := Some (exampleGame\<lparr>status := ai_turn\<rparr>)\<rparr>"]
  by (simp add: exampleApp_def exampleGame_def isValidMove_def)

text \<open>C2, as stated, fails: a valid card that is not in the player's hand (no card of the
  hand has its id) is put on the discard pile, and the turn passes to the computer.\<close>

theorem handlePlayCard_absent_card_counterexample:
  "gameState exampleApp = Some exampleGame \<and>
   ''hQ'' \<notin> set (map id_card (playerHand exampleGame)) \<and>
   \<lparr>id_card = ''hQ'', suit = hearts, rank = RQ\<rparr> \<notin> set (playerHand exampleGame) \<and>
   handlePlayCard \<lparr>id_card = ''hQ'', suit = hearts, rank = RQ\<rparr> exampleApp \<noteq> exampleApp \<and>
   handlePlayCard \<lparr>id_card = ''hQ'', suit = hearts, rank = RQ\<rparr> exampleApp =
     exampleApp\<lparr>gameState := Some (exampleGame\<lparr>
       discardPile := [\<lparr>id_card = ''hQ'', suit = hearts, rank = RQ\<rparr>,
                       \<lparr>id_card = ''h9'', suit = hearts, rank = R9\<rparr>],
       currentRank := RQ, status := ai_turn, lastAction := MsgPlayerPlayed RQ hearts\<rparr>)\<rparr>"
  by (simp add: exampleApp_def exampleGame_def handlePlayCard_def isValidMove_def
      checkWinner_def Let_def)

section \<open>The wild card\<close>

text \<open>C4, as amended. In the player's turn, playing any card of rank 8 leads to the status
  \<open>selecting_suit\<close>, never directly to \<open>ai_turn\<close> or \<open>game_over\<close>: the card leaves the
  hand and becomes the head of the discard pile, it becomes the pending wild card, and the
  target suit and rank stay what they were before the play. Choosing a suit while a wild
  card is pending sets the target suit to the chosen one and the target rank to 8, clears
  the pending card and gives the turn to the computer, whatever the status is. Choosing a
  suit is a no-op when there is no game or no pending wild card.\<close>

theorem wild_card_protocol:
  "(gameState a = Some g \<and> status g = player_turn \<and> rank c = R8 \<longrightarrow>
      handlePlayCard c a =
        a\<lparr>pendingEight := Some c,
          gameState := Some (g\<lparr>playerHand := filter (\<lambda>x. id_card x \<noteq> id_card c) (playerHand g),
            discardPile := c # discardPile g, status := selecting_suit,
            lastAction := MsgPlayerPlayedEight\<rparr>)\<rparr> \<and>
      c \<notin> set (filter (\<lambda>x. id_card x \<noteq> id_card c) (playerHand g))) \<and>
   (gameState b = Some h \<and> pendingEight b = Some p \<longrightarrow>
      handleSuitSelection s b =
        b\<lparr>pendingEight := None,
          gameState := Some (h\<lparr>currentSuit := s, currentRank := R8, status := ai_turn,
            lastAction := MsgSuitChanged s\<rparr>)\<rparr>) \<and>
   (gameState b = None \<or> pendingEight b = None \<longrightarrow> handleSuitSelection s b = b)"
  by (auto simp add: handlePlayCard_def handleSuitSelection_def isValidMove_def Let_def
      split: option.splits)

theorem wild_card_protocol_witness:
  "gameState exampleApp = Some exampleGame \<and> status exampleGame = player_turn \<and>
   rank \<lparr>id_card = ''s8'', suit = spades, rank = R8\<rparr> = R8 \<and>
   handlePlayCard \<lparr>id_card = ''s8'', suit = spades, rank = R8\<rparr> exampleApp =
     exampleApp\<lparr>pendingEight := Some \<lparr>id_card = ''s8'', suit = spades, rank = R8\<rparr>,
       gameState := Some (exampleGame\<lparr>
         playerHand := [\<lparr>id_card = ''h5'', suit = hearts, rank = R5\<rparr>],
         discardPile := [\<lparr>id_card = ''s8'', suit = spades, rank = R8\<rparr>,
                         \<lparr>id_card = ''h9'', suit = hearts, rank = R9\<rparr>],
         status := selecting_suit, lastAction := MsgPlayerPlayedEight\<rparr>)\<rparr> \<and>
   handleSuitSelection diamonds
       (handlePlayCard \<lparr>id_card = ''s8'', suit = spades, rank = R8\<rparr> exampleApp) =
     exampleApp\<lparr>gameState := Some (exampleGame\<lparr>
         playerHand := [\<lparr>id_card = ''h5'', suit = hearts, rank = R5\<rparr>],
         discardPile := [\<lparr>id_card = ''s8'', suit = spades, rank = R8\<rparr>,
                         \<lparr>id_card = ''h9'', suit = hearts, rank = R9\<rparr>],
         currentSuit := diamonds, currentRank := R8,
         status := ai_turn, lastAction := MsgSuitChanged diamonds\<rparr>)\<rparr> \<and>
   pendingEight exampleApp = None \<and>
   handleSuitSelection diamonds exampleApp = exampleApp"
proof -
  let ?c = "\<lparr>id_card = ''s8'', suit = spades, rank = R8\<rparr>"
  have h1: "gameState exampleApp = Some exampleGame" "pendingEight exampleApp = None"
    by (simp_all add: exampleApp_def)
  have h2: "status exampleGame = player_turn" by (simp add: exampleGame_def)
  have h3: "playerHand exampleGame =
      [\<lparr>id_card = ''h5'', suit = hearts, rank = R5\<rparr>, ?c]"
    "discardPile exampleGame = [\<lparr>id_card = ''h9'', suit = hearts, rank = R9\<rparr>]"
    by (simp_all add: exampleGame_def)
  have play: "handlePlayCard ?c exampleApp =
     exampleApp\<lparr>pendingEight := Some ?c,
       gameState := Some (exampleGame\<lparr>
         playerHand := [\<lparr>id_card = ''h5'', suit = hearts, rank = R5\<rparr>],
         discardPile := [?c, \<lparr>id_card = ''h9'', suit = hearts, rank = R9\<rparr>],
         status := selecting_suit, lastAction := MsgPlayerPlayedEight\<rparr>)\<rparr>"
    using wild_card_protocol [of exampleApp exampleGame ?c] h1 h2 h3 by simp
  let ?h = "exampleGame\<lparr>
         playerHand := [\<lparr>id_card = ''h5'', suit = hearts, rank = R5\<rparr>],
         discardPile := [?c, \<lparr>id_card = ''h9'', suit = hearts, rank = R9\<rparr>],
         status := selecting_suit, lastAction := MsgPlayerPlayedEight\<rparr>"
  have b1: "gameState (handlePlayCard ?c exampleApp) = Some ?h"
    and b2: "pendingEight (handlePlayCard ?c exampleApp) = Some ?c"
    by (simp_all add: play)
  have "handleSuitSelection diamonds (handlePlayCard ?c exampleApp) =
     (handlePlayCard ?c exampleApp)\<lparr>pendingEight := None,
          gameState := Some (?h\<lparr>currentSuit := diamonds, currentRank := R8, status := ai_turn,
            lastAction := MsgSuitChanged diamonds\<rparr>)\<rparr>"
    using wild_card_protocol [where b = "handlePlayCard ?c exampleApp" and h = ?h
        and p = ?c and s = diamonds] b1 b2 by blast
  then have choose: "handleSuitSelection diamonds (handlePlayCard ?c exampleApp) =
     exampleApp\<lparr>gameState := Some (exampleGame\<lparr>
         playerHand := [\<lparr>id_card = ''h5'', suit = hearts, rank = R5\<rparr>],
         discardPile := [?c, \<lparr>id_card = ''h9'', suit = hearts, rank = R9\<rparr>],
         currentSuit := diamonds, currentRank := R8,
         status := ai_turn, lastAction := MsgSuitChanged diamonds\<rparr>)\<rparr>"
    unfolding play by (simp add: exampleApp_def)
  have noop: "handleSuitSelection diamonds exampleApp = exampleApp"
    using wild_card_protocol [where b = exampleApp and s = diamonds] h1 by blast
  show ?thesis using h1 h2 play choose noop by simp
qed

text \<open>C4, as stated, fails twice. After the player plays the eight of spades on the nine
  of hearts, the status is \<open>selecting_suit\<close> and the target rank is still 9, not 8. And with
  a pending wild card in a state whose status is \<open>player_turn\<close>, choosing a suit is not a
  no-op.\<close>

theorem wild_card_protocol_counterexample:
  "status exampleGame = player_turn \<and>
   \<lparr>id_card = ''s8'', suit = spades, rank = R8\<rparr> \<in> set (playerHand exampleGame) \<and>
   map_option currentRank
     (gameState (handlePlayCard \<lparr>id_card = ''s8'', suit = spades, rank = R8\<rparr> exampleApp)) =
     Some R9 \<and>
   map_option status
     (gameState (handlePlayCard \<lparr>id_card = ''s8'', suit = spades, rank = R8\<rparr> exampleApp)) =
     Some selecting_suit \<and>
   status exampleGame \<noteq> selecting_suit \<and>
   handleSuitSelection diamonds
     (exampleApp\<lparr>pendingEight := Some \<lparr>id_card = ''s8'', suit = spades, rank = R8\<rparr>\<rparr>) \<noteq>
     exampleApp\<lparr>pendingEight := Some \<lparr>id_card = ''s8'', suit = spades, rank = R8\<rparr>\<rparr>"
  by (simp add: exampleApp_def exampleGame_def handlePlayCard_def handleSuitSelection_def
      isValidMove_def Let_def)

section \<open>The computer never selects a suit interactively\<close>

text \<open>C9. A turn of the computer ends in \<open>player_turn\<close>, \<open>ai_turn\<close> or \<open>game_over\<close>; the
  function leaves a state whose status is \<open>selecting_suit\<close> only by doing nothing to
  such a state, and it never touches the pending wild card. Of all operations, only the
  player's play of a card of rank 8 can produce a snapshot with status \<open>selecting_suit\<close>
  that was not already there.\<close>

theorem aiEffect_never_selecting_suit:
  "(gameState a = Some g \<and> status g = ai_turn \<longrightarrow>
      (\<exists>g'. gameState (aiEffect a) = Some g' \<and>
         (status g' = player_turn \<or> status g' = ai_turn \<or> status g' = game_over))) \<and>
   (statusIs (aiEffect a) selecting_suit \<longrightarrow> aiEffect a = a) \<and>
   pendingEight (aiEffect a) = pendingEight a \<and>
   (statusIs (step op a) selecting_suit \<longrightarrow>
      gameState (step op a) = gameState a \<or>
      (\<exists>c. op = Play c \<and> rank c = R8 \<and> pendingEight (step op a) = Some c))"
proof -
  have ai_noop: "statusIs (aiEffect a) selecting_suit \<longrightarrow> aiEffect a = a"
  proof (cases "gameState a")
    case None
    then show ?thesis by (simp add: aiEffect_no_game)
  next
    case (Some g)
    show ?thesis
    proof (cases "status g = ai_turn")
      case True
      with Some aiEffect_status [of a g] show ?thesis by (auto simp add: statusIs_def)
    next
      case False
      with Some show ?thesis by (simp add: aiEffect_other_status)
    qed
  qed
  have st: "statusIs (step op a) selecting_suit \<longrightarrow>
      gameState (step op a) = gameState a \<or>
      (\<exists>c. op = Play c \<and> rank c = R8 \<and> pendingEight (step op a) = Some c)"
  proof (cases op)
    case (Initialize d)
    then show ?thesis by (simp add: initGame_def Let_def statusIs_def)
  next
    case Draw
    then show ?thesis
      by (cases "gameState a") (simp_all add: handleDraw_def Let_def statusIs_def)
  next
    case (Play c)
    with handlePlayCard_selecting_suit [of c a] show ?thesis by auto
  next
    case (ChooseSuit s)
    then show ?thesis
      by (cases "gameState a"; cases "pendingEight a")
        (simp_all add: handleSuitSelection_def statusIs_def)
  next
    case ResolveComputerTurn
    with ai_noop show ?thesis by auto
  qed
  from aiEffect_status [of a g] ai_noop aiEffect_pendingEight [of a] st show ?thesis by blast
qed

theorem aiEffect_never_selecting_suit_witness:
  "gameState (exampleApp\<lparr>gameState := Some (exampleGame\<lparr>status := ai_turn\<rparr>)\<rparr>) =
     Some (exampleGame\<lparr>status := ai_turn\<rparr>) \<and>
   status (exampleGame\<lparr>status := ai_turn\<rparr>) = ai_turn \<and>
   statusIs (aiEffect (exampleApp\<lparr>gameState := Some (exampleGame\<lparr>status := ai_turn\<rparr>)\<rparr>))
     player_turn \<and>
   statusIs (aiEffect (exampleApp\<lparr>gameState := Some (exampleGame\<lparr>status := selecting_suit\<rparr>)\<rparr>))
     selecting_suit \<and>
   aiEffect (exampleApp\<lparr>gameState := Some (exampleGame\<lparr>status := selecting_suit\<rparr>)\<rparr>) =
     exampleApp\<lparr>gameState := Some (exampleGame\<lparr>status := selecting_suit\<rparr>)\<rparr> \<and>
   statusIs (step (Play \<lparr>id_card = ''s8'', suit = spades, rank = R8\<rparr>) exampleApp)
     selecting_suit \<and>
   pendingEight (step (Play \<lparr>id_card = ''s8'', suit = spades, rank = R8\<rparr>) exampleApp) =
     Some \<lparr>id_card = ''s8'', suit = spades, rank = R8\<rparr>"
proof -
  let ?a1 = "exampleApp\<lparr>gameState := Some (exampleGame\<lparr>status := ai_turn\<rparr>)\<rparr>"
  let ?a2 = "exampleApp\<lparr>gameState := Some (exampleGame\<lparr>status := selecting_suit\<rparr>)\<rparr>"
  let ?c = "\<lparr>id_card = ''s8'', suit = spades, rank = R8\<rparr>"
  have p1: "statusIs (aiEffect ?a1) player_turn"
    by (simp add: exampleApp_def exampleGame_def aiEffect_def playable_def isValidMove_def
        Let_def cardToPlay_def checkWinner_def statusIs_def)
  have p2: "statusIs (aiEffect ?a2) selecting_suit"
    by (simp add: aiEffect_def statusIs_def)
  have p3: "statusIs (step (Play ?c) exampleApp) selecting_suit"
    by (simp add: exampleApp_def exampleGame_def handlePlayCard_def isValidMove_def Let_def
        statusIs_def)
  have p4: "gameState (step (Play ?c) exampleApp) \<noteq> gameState exampleApp"
    by (simp add: exampleApp_def exampleGame_def handlePlayCard_def isValidMove_def Let_def)
  from aiEffect_never_selecting_suit [of ?a2 "exampleGame\<lparr>status := selecting_suit\<rparr>"] p2
  have q2: "aiEffect ?a2 = ?a2" by blast
  from aiEffect_never_selecting_suit [of exampleApp exampleGame "Play ?c"] p3 p4
  have q3: "pendingEight (step (Play ?c) exampleApp) = Some ?c" by auto
  show ?thesis using p1 p2 p3 q2 q3 by simp
qed

section \<open>Initialization\<close>

text \<open>C3, as amended. \<open>initGame\<close> deals the first eight cards of the deck to the player
  and the next eight to the computer, then takes as the single initial discard the first
  card that is not an eight, scanning the remaining deck from index 0, the end from which
  the hands were dealt and the opposite of the end from which draws take cards, and
  removes it from the deck. It stores the setup error, and leaves the game as it was, if
  and only if every remaining card is an eight. On a fresh deck of 52 cards it never
  fails: the zones have 35, 8, 8 and 1 cards and hold the cards of the deck, the target
  suit and rank are those of the initial discard, the status is \<open>player_turn\<close> and there
  is no winner.\<close>

theorem initGame_deal:
  "(if \<forall>c \<in> set (drop 16 d). rank c = R8 then
      initGame d a = a\<lparr>error := Some NoInitialDiscard\<rparr>
    else
      \<exists>eights x rest.
        drop 16 d = eights @ x # rest \<and> (\<forall>c \<in> set eights. rank c = R8) \<and> rank x \<noteq> R8 \<and>
        initGame d a = a\<lparr>gameState := Some
          \<lparr>deck = eights @ rest, discardPile = [x], playerHand = take 8 d,
           aiHand = take 8 (drop 8 d), currentSuit = suit x, currentRank = rank x,
           status = player_turn, winner = None, lastAction = MsgGameStart\<rparr>\<rparr>) \<and>
   (isFreshDeck d \<longrightarrow>
      (\<exists>g. gameState (initGame d a) = Some g \<and>
         length (deck g) = 35 \<and> length (playerHand g) = 8 \<and> length (aiHand g) = 8 \<and>
         length (discardPile g) = 1 \<and> mset (zones g) = mset d \<and>
         (\<exists>x. discardPile g = [x] \<and> rank x \<noteq> R8 \<and>
            currentSuit g = suit x \<and> currentRank g = rank x) \<and>
         status g = player_turn \<and> winner g = None))"
proof -
  have split: "\<exists>eights x rest.
        drop 16 d = eights @ x # rest \<and> (\<forall>c \<in> set eights. rank c = R8) \<and> rank x \<noteq> R8 \<and>
        initGame d a = a\<lparr>gameState := Some
          \<lparr>deck = eights @ rest, discardPile = [x], playerHand = take 8 d,
           aiHand = take 8 (drop 8 d), currentSuit = suit x, currentRank = rank x,
           status = player_turn, winner = None, lastAction = MsgGameStart\<rparr>\<rparr>"
    if "\<not> (\<forall>c \<in> set (drop 16 d). rank c = R8)"
  proof -
    from scan_finds [OF that] obtain eights x rest where
      e: "drop 16 d = eights @ x # rest" "\<forall>c \<in> set eights. rank c = R8" "rank x \<noteq> R8"
      by blast
    from initGame_success [OF e] e show ?thesis by blast
  qed
  have fresh: "\<exists>g. gameState (initGame d a) = Some g \<and>
         length (deck g) = 35 \<and> length (playerHand g) = 8 \<and> length (aiHand g) = 8 \<and>
         length (discardPile g) = 1 \<and> mset (zones g) = mset d \<and>
         (\<exists>x. discardPile g = [x] \<and> rank x \<noteq> R8 \<and>
            currentSuit g = suit x \<and> currentRank g = rank x) \<and>
         status g = player_turn \<and> winner g = None"
    if f: "isFreshDeck d"
  proof -
    from f have len: "length d = 52" by (simp add: isFreshDeck_def)
    from split [OF fresh_deck_has_discard [OF f]] obtain eights x rest where
      e: "drop 16 d = eights @ x # rest" "rank x \<noteq> R8"
      and i: "initGame d a = a\<lparr>gameState := Some
          \<lparr>deck = eights @ rest, discardPile = [x], playerHand = take 8 d,
           aiHand = take 8 (drop 8 d), currentSuit = suit x, currentRank = rank x,
           status = player_turn, winner = None, lastAction = MsgGameStart\<rparr>\<rparr>"
      by blast
    have "length (drop 16 d) = length (eights @ x # rest)" by (simp only: e(1))
    with len have l: "length eights + length rest = 35" by simp
    have "d = take 8 d @ take 8 (drop 8 d) @ drop 16 d"
      by (metis append_take_drop_id drop_drop numeral_Bit0)
    then have "mset d = mset (take 8 d) + mset (take 8 (drop 8 d)) + mset (drop 16 d)"
      by (metis mset_append append_assoc)
    with e(1) have m: "mset d = mset (eights @ rest) + {#x#} + mset (take 8 d) +
        mset (take 8 (drop 8 d))" by simp
    show ?thesis using i l len e(2) m by (simp add: zones_def)
  qed
  show ?thesis using split initGame_error [of d a] fresh by (simp split: if_splits)
qed


theorem initGame_deal_witness:
  "isFreshDeck lastEightDeck \<and>
   (\<exists>g. gameState (initGame lastEightDeck initialApp) = Some g \<and>
      length (deck g) = 35 \<and> length (playerHand g) = 8 \<and> length (aiHand g) = 8 \<and>
      length (discardPile g) = 1 \<and> status g = player_turn) \<and>
   initGame (replicate 17 \<lparr>id_card = ''s8'', suit = spades, rank = R8\<rparr>) initialApp =
     initialApp\<lparr>error := Some NoInitialDiscard\<rparr>"
proof -
  have f: "isFreshDeck lastEightDeck" by code_simp
  have e: "(\<forall>c \<in> set (drop 16 (replicate 17 \<lparr>id_card = ''s8'', suit = spades, rank = R8\<rparr>)).
      rank c = R8) = True" by simp
  from initGame_deal [of lastEightDeck initialApp] f
  have "\<exists>g. gameState (initGame lastEightDeck initialApp) = Some g \<and>
      length (deck g) = 35 \<and> length (playerHand g) = 8 \<and> length (aiHand g) = 8 \<and>
      length (discardPile g) = 1 \<and> status g = player_turn" by blast
  moreover from initGame_deal
    [of "replicate 17 \<lparr>id_card = ''s8'', suit = spades, rank = R8\<rparr>" initialApp]
  have "initGame (replicate 17 \<lparr>id_card = ''s8'', suit = spades, rank = R8\<rparr>) initialApp =
     initialApp\<lparr>error := Some NoInitialDiscard\<rparr>" unfolding e by simp
  ultimately show ?thesis using f by simp
qed

text \<open>C3, as stated, fails on the scanning end: on this fresh deck the initial discard is
  the nine of hearts, the first of the remaining cards, while the top of the deck, the
  card the first draw takes, is the king of spades, which is not an eight.\<close>

theorem initGame_scan_end_counterexample:
  "isFreshDeck lastEightDeck \<and>
   map_option discardPile (gameState (initGame lastEightDeck initialApp)) =
     Some [\<lparr>id_card = ''h9'', suit = hearts, rank = R9\<rparr>] \<and>
   drop 16 lastEightDeck ! 0 = \<lparr>id_card = ''h9'', suit = hearts, rank = R9\<rparr> \<and>
   map_option (last \<circ> deck) (gameState (initGame lastEightDeck initialApp)) =
     Some \<lparr>id_card = ''sK'', suit = spades, rank = RK\<rparr> \<and>
   rank \<lparr>id_card = ''sK'', suit = spades, rank = RK\<rparr> \<noteq> R8 \<and>
   map_option (last \<circ> playerHand)
       (gameState (handleDraw (initGame lastEightDeck initialApp))) =
     Some \<lparr>id_card = ''sK'', suit = spades, rank = RK\<rparr>"
  by code_simp

section \<open>The computer's policy\<close>

text \<open>C5. In a state whose status is \<open>ai_turn\<close> and in which the computer holds a card
  that is a valid move, the computer's turn plays one valid card of its hand: the card
  goes to the head of the discard pile, the hand loses the cards with its id, and the
  target rank becomes the card's rank. If some valid card is not an eight, the played card
  is the first valid card in hand order that is not an eight, and the target suit becomes
  its suit. Otherwise every valid card is an eight, the played card is the first valid
  card of the hand, the target rank becomes 8, and the target suit is hearts when the
  remaining hand is empty and otherwise a suit whose number of cards in the remaining hand
  is the highest, namely the suit of the first card of the remaining hand whose suit
  attains that number.\<close>

theorem aiEffect_policy:
  assumes "gameState a = Some g" and "status g = ai_turn"
    and "\<exists>x \<in> set (aiHand g). isValidMove x (currentSuit g) (currentRank g)"
  shows "\<exists>g' c pre post.
     gameState (aiEffect a) = Some g' \<and>
     aiHand g = pre @ c # post \<and> isValidMove c (currentSuit g) (currentRank g) \<and>
     aiHand g' = filter (\<lambda>x. id_card x \<noteq> id_card c) (aiHand g) \<and>
     discardPile g' = c # discardPile g \<and> currentRank g' = rank c \<and>
     (if \<exists>x \<in> set (aiHand g). isValidMove x (currentSuit g) (currentRank g) \<and> rank x \<noteq> R8
      then
        rank c \<noteq> R8 \<and> currentSuit g' = suit c \<and>
        (\<forall>y \<in> set pre. \<not> (isValidMove y (currentSuit g) (currentRank g) \<and> rank y \<noteq> R8))
      else
        rank c = R8 \<and> currentRank g' = R8 \<and>
        (\<forall>y \<in> set pre. \<not> isValidMove y (currentSuit g) (currentRank g)) \<and>
        (if aiHand g' = [] then currentSuit g' = hearts
         else
           (\<forall>s. occurrences (aiHand g') s \<le> occurrences (aiHand g') (currentSuit g')) \<and>
           (\<exists>before x after. aiHand g' = before @ x # after \<and> suit x = currentSuit g' \<and>
              (\<forall>y \<in> set before.
                 occurrences (aiHand g') (suit y) < occurrences (aiHand g') (currentSuit g')))))"
proof -
  let ?V = "\<lambda>x. isValidMove x (currentSuit g) (currentRank g)"
  from assms(3) have pne: "playable g \<noteq> []" by (simp add: playable_empty_iff)
  from aiEffect_play [OF assms(1,2) pne] obtain g' where
    g': "gameState (aiEffect a) = Some g'"
      "aiHand g' = filter (\<lambda>c. id_card c \<noteq> id_card (cardToPlay (playable g))) (aiHand g)"
      "discardPile g' = cardToPlay (playable g) # discardPile g"
      "currentRank g' = rank (cardToPlay (playable g))"
      "currentSuit g' = (if rank (cardToPlay (playable g)) = R8 then pickSuit (aiHand g')
          else suit (cardToPlay (playable g)))"
    by blast
  show ?thesis
  proof (cases "\<exists>x \<in> set (aiHand g). ?V x \<and> rank x \<noteq> R8")
    case True
    from split_list_first_prop [OF True] obtain pre c post where
      sp: "aiHand g = pre @ c # post" "?V c \<and> rank c \<noteq> R8"
        "\<forall>y \<in> set pre. \<not> (?V y \<and> rank y \<noteq> R8)" by blast
    from cardToPlay_non_eight [of "aiHand g" pre c post ?V] sp
    have c: "cardToPlay (playable g) = c" by (simp add: playable_def)
    from g'(5) sp(2) have cs: "currentSuit g' = suit c" unfolding c by simp
    have "gameState (aiEffect a) = Some g' \<and>
      aiHand g = pre @ c # post \<and> ?V c \<and>
      aiHand g' = filter (\<lambda>x. id_card x \<noteq> id_card c) (aiHand g) \<and>
      discardPile g' = c # discardPile g \<and> currentRank g' = rank c \<and>
      (rank c \<noteq> R8 \<and> currentSuit g' = suit c \<and>
        (\<forall>y \<in> set pre. \<not> (?V y \<and> rank y \<noteq> R8)))"
      using g'(1-4) sp cs unfolding c by simp
    note body = this
    have "gameState (aiEffect a) = Some g' \<and>
      aiHand g = pre @ c # post \<and> ?V c \<and>
      aiHand g' = filter (\<lambda>x. id_card x \<noteq> id_card c) (aiHand g) \<and>
      discardPile g' = c # discardPile g \<and> currentRank g' = rank c \<and>
      (if \<exists>x \<in> set (aiHand g). ?V x \<and> rank x \<noteq> R8
       then
        rank c \<noteq> R8 \<and> currentSuit g' = suit c \<and>
        (\<forall>y \<in> set pre. \<not> (?V y \<and> rank y \<noteq> R8))
       else
        rank c = R8 \<and> currentRank g' = R8 \<and>
        (\<forall>y \<in> set pre. \<not> ?V y) \<and>
        (if aiHand g' = [] then currentSuit g' = hearts
         else
           (\<forall>s. occurrences (aiHand g') s \<le> occurrences (aiHand g') (currentSuit g')) \<and>
           (\<exists>before x after. aiHand g' = before @ x # after \<and> suit x = currentSuit g' \<and>
              (\<forall>y \<in> set before.
                 occurrences (aiHand g') (suit y) < occurrences (aiHand g') (currentSuit g')))))"
      unfolding if_P [OF True] by (rule body)
    then show ?thesis by (intro exI)
  next
    case False
    from split_list_first_prop [OF assms(3)] obtain pre c post where
      sp: "aiHand g = pre @ c # post" "?V c" "\<forall>y \<in> set pre. \<not> ?V y" by blast
    from False have all8: "\<forall>y \<in> set (aiHand g). ?V y \<longrightarrow> rank y = R8" by blast
    from cardToPlay_all_eights [of "aiHand g" pre c post ?V] sp all8
    have c: "cardToPlay (playable g) = c" by (simp add: playable_def)
    from all8 sp have r8: "rank c = R8" by simp
    have suit: "if aiHand g' = [] then currentSuit g' = hearts
         else
           (\<forall>s. occurrences (aiHand g') s \<le> occurrences (aiHand g') (currentSuit g')) \<and>
           (\<exists>before x after. aiHand g' = before @ x # after \<and> suit x = currentSuit g' \<and>
              (\<forall>y \<in> set before.
                 occurrences (aiHand g') (suit y) < occurrences (aiHand g') (currentSuit g')))"
    proof (cases "aiHand g' = []")
      case True
      with g'(5) r8 show ?thesis unfolding c by (simp add: pickSuit_empty)
    next
      case False
      from g'(5) r8 have cs: "currentSuit g' = pickSuit (aiHand g')" unfolding c by simp
      from pickSuit_most_frequent [OF False] show ?thesis
        unfolding cs by (simp only: if_not_P [OF False] simp_thms)
    qed
    have "gameState (aiEffect a) = Some g' \<and>
      aiHand g = pre @ c # post \<and> ?V c \<and>
      aiHand g' = filter (\<lambda>x. id_card x \<noteq> id_card c) (aiHand g) \<and>
      discardPile g' = c # discardPile g \<and> currentRank g' = rank c \<and>
      (rank c = R8 \<and> currentRank g' = R8 \<and> (\<forall>y \<in> set pre. \<not> ?V y) \<and>
       (if aiHand g' = [] then currentSuit g' = hearts
         else
           (\<forall>s. occurrences (aiHand g') s \<le> occurrences (aiHand g') (currentSuit g')) \<and>
           (\<exists>before x after. aiHand g' = before @ x # after \<and> suit x = currentSuit g' \<and>
              (\<forall>y \<in> set before.
                 occurrences (aiHand g') (suit y) < occurrences (aiHand g') (currentSuit g')))))"
      using g'(1-4) sp r8 suit unfolding c by (intro conjI) simp_all
    note body = this
    have "gameState (aiEffect a) = Some g' \<and>
      aiHand g = pre @ c # post \<and> ?V c \<and>
      aiHand g' = filter (\<lambda>x. id_card x \<noteq> id_card c) (aiHand g) \<and>
      discardPile g' = c # discardPile g \<and> currentRank g' = rank c \<and>
      (if \<exists>x \<in> set (aiHand g). ?V x \<and> rank x \<noteq> R8
       then
        rank c \<noteq> R8 \<and> currentSuit g' = suit c \<and>
        (\<forall>y \<in> set pre. \<not> (?V y \<and> rank y \<noteq> R8))
       else
        rank c = R8 \<and> currentRank g' = R8 \<and>
        (\<forall>y \<in> set pre. \<not> ?V y) \<and>
        (if aiHand g' = [] then currentSuit g' = hearts
         else
           (\<forall>s. occurrences (aiHand g') s \<le> occurrences (aiHand g') (currentSuit g')) \<and>
           (\<exists>before x after. aiHand g' = before @ x # after \<and> suit x = currentSuit g' \<and>
              (\<forall>y \<in> set before.
                 occurrences (aiHand g') (suit y) < occurrences (aiHand g') (currentSuit g')))))"
      unfolding if_not_P [OF False] by (rule body)
    then show ?thesis by (intro exI)
  qed
qed


theorem aiEffect_policy_witness:
  "gameState (exampleApp\<lparr>gameState := Some (exampleGame\<lparr>status := ai_turn, currentRank := R5\<rparr>)\<rparr>) =
     Some (exampleGame\<lparr>status := ai_turn, currentRank := R5\<rparr>) \<and>
   status (exampleGame\<lparr>status := ai_turn, currentRank := R5\<rparr>) = ai_turn \<and>
   \<lparr>id_card = ''c8'', suit = clubs, rank = R8\<rparr>
     \<in> set (aiHand (exampleGame\<lparr>status := ai_turn, currentRank := R5\<rparr>)) \<and>
   isValidMove \<lparr>id_card = ''c8'', suit = clubs, rank = R8\<rparr> hearts R5 \<and>
   (\<exists>g' c pre post.
      gameState (aiEffect (exampleApp\<lparr>gameState :=
        Some (exampleGame\<lparr>status := ai_turn, currentRank := R5\<rparr>)\<rparr>)) = Some g' \<and>
      aiHand (exampleGame\<lparr>status := ai_turn, currentRank := R5\<rparr>) = pre @ c # post \<and>
      discardPile g' = c # discardPile (exampleGame\<lparr>status := ai_turn, currentRank := R5\<rparr>) \<and>
      currentRank g' = rank c) \<and>
   map_option currentSuit (gameState (aiEffect (exampleApp\<lparr>gameState :=
        Some (exampleGame\<lparr>status := ai_turn, currentRank := R5\<rparr>)\<rparr>))) = Some diamonds \<and>
   map_option discardPile (gameState (aiEffect (exampleApp\<lparr>gameState :=
        Some (exampleGame\<lparr>status := ai_turn, currentRank := R5\<rparr>)\<rparr>))) =
     Some [\<lparr>id_card = ''c8'', suit = clubs, rank = R8\<rparr>,
           \<lparr>id_card = ''h9'', suit = hearts, rank = R9\<rparr>] \<and>
   map_option discardPile (gameState (aiEffect (exampleApp\<lparr>gameState :=
        Some (exampleGame\<lparr>status := ai_turn\<rparr>)\<rparr>))) =
     Some [\<lparr>id_card = ''d9'', suit = diamonds, rank = R9\<rparr>,
           \<lparr>id_card = ''h9'', suit = hearts, rank = R9\<rparr>]"
proof -
  let ?g = "exampleGame\<lparr>status := ai_turn, currentRank := R5\<rparr>"
  let ?a = "exampleApp\<lparr>gameState := Some ?g\<rparr>"
  let ?c8 = "\<lparr>id_card = ''c8'', suit = clubs, rank = R8\<rparr>"
  have h1: "gameState ?a = Some ?g" by simp
  have h2: "status ?g = ai_turn" by simp
  have h3: "?c8 \<in> set (aiHand ?g)" by (simp add: exampleGame_def)
  have h4: "isValidMove ?c8 hearts R5" by (simp add: isValidMove_def)
  have h5: "currentSuit ?g = hearts" "currentRank ?g = R5" by (simp_all add: exampleGame_def)
  from h3 h4 h5 have h6: "\<exists>x \<in> set (aiHand ?g). isValidMove x (currentSuit ?g) (currentRank ?g)"
    by (intro bexI [of _ ?c8]) simp_all
  from aiEffect_policy [OF h1 h2 h6] obtain g' c pre post where
    "gameState (aiEffect ?a) = Some g'" "aiHand ?g = pre @ c # post"
    "discardPile g' = c # discardPile ?g" "currentRank g' = rank c" by blast
  then have ex: "\<exists>g' c pre post.
      gameState (aiEffect ?a) = Some g' \<and> aiHand ?g = pre @ c # post \<and>
      discardPile g' = c # discardPile ?g \<and> currentRank g' = rank c" by blast
  have e1: "map_option currentSuit (gameState (aiEffect ?a)) = Some diamonds" by code_simp
  have e2: "map_option discardPile (gameState (aiEffect ?a)) =
     Some [?c8, \<lparr>id_card = ''h9'', suit = hearts, rank = R9\<rparr>]" by code_simp
  have e3: "map_option discardPile (gameState (aiEffect (exampleApp\<lparr>gameState :=
        Some (exampleGame\<lparr>status := ai_turn\<rparr>)\<rparr>))) =
     Some [\<lparr>id_card = ''d9'', suit = diamonds, rank = R9\<rparr>,
           \<lparr>id_card = ''h9'', suit = hearts, rank = R9\<rparr>]" by code_simp
  from h1 h2 h3 h4 ex e1 e2 e3 show ?thesis by (intro conjI)
qed

section \<open>Conservation of the cards\<close>

text \<open>C8, as amended. In a state whose four zones together are a full deck (52 cards,
  distinct ids, one card per suit and rank), a draw, a suit choice and a turn of the
  computer, and the play of a card that is in the player's hand, lead to a state whose
  four zones hold the same cards, each once, and so are again a full deck.\<close>

theorem operations_conserve_cards:
  assumes "gameState a = Some g" and "isFreshDeck (zones g)"
  shows "(\<exists>g'. gameState (handleDraw a) = Some g' \<and>
            mset (zones g') = mset (zones g) \<and> isFreshDeck (zones g')) \<and>
         (c \<in> set (playerHand g) \<longrightarrow>
            (\<exists>g'. gameState (handlePlayCard c a) = Some g' \<and>
               mset (zones g') = mset (zones g) \<and> isFreshDeck (zones g'))) \<and>
         (\<exists>g'. gameState (handleSuitSelection s a) = Some g' \<and>
            mset (zones g') = mset (zones g) \<and> isFreshDeck (zones g')) \<and>
         (\<exists>g'. gameState (aiEffect a) = Some g' \<and>
            mset (zones g') = mset (zones g) \<and> isFreshDeck (zones g'))"
proof -
  note d = fresh_zones_distinct_hand [OF assms(2)]
  have fresh: "mset (zones g') = mset (zones g) \<and> isFreshDeck (zones g')"
    if "mset (zones g') = mset (zones g)" for g'
    using that isFreshDeck_mset [OF that assms(2)] by simp
  from handleDraw_zones [OF assms(1)] fresh
  have draw: "\<exists>g'. gameState (handleDraw a) = Some g' \<and>
            mset (zones g') = mset (zones g) \<and> isFreshDeck (zones g')" by blast
  have play: "\<exists>g'. gameState (handlePlayCard c a) = Some g' \<and>
               mset (zones g') = mset (zones g) \<and> isFreshDeck (zones g')"
    if "c \<in> set (playerHand g)"
    using handlePlayCard_zones [OF assms(1) d(1) that] fresh by blast
  from handleSuitSelection_zones [OF assms(1), of s] obtain g1 where
    "gameState (handleSuitSelection s a) = Some g1" "zones g1 = zones g" by blast
  with fresh [of g1]
  have choose: "\<exists>g'. gameState (handleSuitSelection s a) = Some g' \<and>
            mset (zones g') = mset (zones g) \<and> isFreshDeck (zones g')" by simp
  from aiEffect_zones [OF assms(1) d(2)] fresh
  have resolve: "\<exists>g'. gameState (aiEffect a) = Some g' \<and>
            mset (zones g') = mset (zones g) \<and> isFreshDeck (zones g')" by blast
  from draw play choose resolve show ?thesis by (intro conjI impI)
qed

theorem operations_conserve_cards_witness:
  "gameState (initGame lastEightDeck initialApp) \<noteq> None \<and>
   isFreshDeck (zones (the (gameState (initGame lastEightDeck initialApp)))) \<and>
   hd lastEightDeck \<in> set (playerHand (the (gameState (initGame lastEightDeck initialApp)))) \<and>
   (\<exists>g'. gameState (handlePlayCard (hd lastEightDeck) (initGame lastEightDeck initialApp)) =
        Some g' \<and>
      mset (zones g') = mset (zones (the (gameState (initGame lastEightDeck initialApp)))) \<and>
      isFreshDeck (zones g')) \<and>
   (\<exists>g'. gameState (handleDraw (initGame lastEightDeck initialApp)) = Some g' \<and>
      mset (zones g') = mset (zones (the (gameState (initGame lastEightDeck initialApp)))) \<and>
      isFreshDeck (zones g'))"
proof -
  let ?a = "initGame lastEightDeck initialApp"
  let ?g = "the (gameState ?a)"
  have h0: "gameState ?a \<noteq> None" by code_simp
  then have h1: "gameState ?a = Some ?g" by simp
  have h2: "isFreshDeck (zones ?g)" by code_simp
  have h3: "hd lastEightDeck \<in> set (playerHand ?g)" by code_simp
  from operations_conserve_cards [OF h1 h2, of "hd lastEightDeck"] h3
  have "(\<exists>g'. gameState (handlePlayCard (hd lastEightDeck) ?a) = Some g' \<and>
      mset (zones g') = mset (zones ?g) \<and> isFreshDeck (zones g')) \<and>
   (\<exists>g'. gameState (handleDraw ?a) = Some g' \<and>
      mset (zones g') = mset (zones ?g) \<and> isFreshDeck (zones g'))"
    by blast
  with h0 h2 h3 show ?thesis by (intro conjI) simp_all
qed

text \<open>C8, as stated, fails for the play of a card that is not in the player's hand: after
  the deal of a full deck, playing the nine of diamonds, which the computer holds, puts it
  on the discard pile and leaves it in the computer's hand, so the zones hold 53 cards.\<close>

theorem play_foreign_card_counterexample:
  "gameState (initGame lastEightDeck initialApp) \<noteq> None \<and>
   isFreshDeck (zones (the (gameState (initGame lastEightDeck initialApp)))) \<and>
   \<lparr>id_card = ''d9'', suit = diamonds, rank = R9\<rparr>
     \<in> set (aiHand (the (gameState (initGame lastEightDeck initialApp)))) \<and>
   gameState (handlePlayCard \<lparr>id_card = ''d9'', suit = diamonds, rank = R9\<rparr>
       (initGame lastEightDeck initialApp)) \<noteq> None \<and>
   length (zones (the (gameState
     (handlePlayCard \<lparr>id_card = ''d9'', suit = diamonds, rank = R9\<rparr>
       (initGame lastEightDeck initialApp))))) = 53 \<and>
   \<not> isFreshDeck (zones (the (gameState
     (handlePlayCard \<lparr>id_card = ''d9'', suit = diamonds, rank = R9\<rparr>
       (initGame lastEightDeck initialApp))))) \<and>
   \<lparr>id_card = ''d9'', suit = diamonds, rank = R9\<rparr>
     \<in> set (aiHand (the (gameState
       (handlePlayCard \<lparr>id_card = ''d9'', suit = diamonds, rank = R9\<rparr>
         (initGame lastEightDeck initialApp))))) \<and>
   hd (discardPile (the (gameState
       (handlePlayCard \<lparr>id_card = ''d9'', suit = diamonds, rank = R9\<rparr>
         (initGame lastEightDeck initialApp))))) =
     \<lparr>id_card = ''d9'', suit = diamonds, rank = R9\<rparr>"
  by code_simp

section \<open>Winning with an eight\<close>

text \<open>C1. The claim is that in every reachable state a hand is empty exactly when a
  winner is set and the status is \<open>game_over\<close>, also when the player's last card is an
  eight. The code does not do that: in the game \<open>lastEightOps\<close>, in which every operation is
  offered when it is applied, the player's last card is the eight of hearts; after the
  suit choice the player's hand is empty, the status is \<open>ai_turn\<close> and there is no winner,
  and after the computer's next turn, a draw, it is the player's turn again, still with an
  empty hand and no winner.\<close>

theorem last_eight_leaves_no_winner:
  "reachable (run lastEightOps initialApp) \<and>
   gameState (run lastEightOps initialApp) \<noteq> None \<and>
   playerHand (the (gameState (run lastEightOps initialApp))) = [] \<and>
   length (aiHand (the (gameState (run lastEightOps initialApp)))) = 15 \<and>
   status (the (gameState (run lastEightOps initialApp))) = ai_turn \<and>
   winner (the (gameState (run lastEightOps initialApp))) = None \<and>
   reachable (run (lastEightOps @ [ResolveComputerTurn]) initialApp) \<and>
   gameState (run (lastEightOps @ [ResolveComputerTurn]) initialApp) \<noteq> None \<and>
   playerHand (the (gameState (run (lastEightOps @ [ResolveComputerTurn]) initialApp))) = [] \<and>
   status (the (gameState (run (lastEightOps @ [ResolveComputerTurn]) initialApp))) =
     player_turn \<and>
   winner (the (gameState (run (lastEightOps @ [ResolveComputerTurn]) initialApp))) = None"
proof -
  have "offeredAll lastEightOps initialApp" by code_simp
  with reachable_initial have r1: "reachable (run lastEightOps initialApp)"
    by (rule reachable_run)
  have "offeredAll (lastEightOps @ [ResolveComputerTurn]) initialApp" by code_simp
  with reachable_initial
  have r2: "reachable (run (lastEightOps @ [ResolveComputerTurn]) initialApp)"
    by (rule reachable_run)
  have e1: "gameState (run lastEightOps initialApp) \<noteq> None"
    "playerHand (the (gameState (run lastEightOps initialApp))) = []"
    "length (aiHand (the (gameState (run lastEightOps initialApp)))) = 15"
    "status (the (gameState (run lastEightOps initialApp))) = ai_turn"
    "winner (the (gameState (run lastEightOps initialApp))) = None"
    by code_simp+
  have e2: "gameState (run (lastEightOps @ [ResolveComputerTurn]) initialApp) \<noteq> None"
    "playerHand (the (gameState (run (lastEightOps @ [ResolveComputerTurn]) initialApp))) = []"
    "status (the (gameState (run (lastEightOps @ [ResolveComputerTurn]) initialApp))) =
       player_turn"
    "winner (the (gameState (run (lastEightOps @ [ResolveComputerTurn]) initialApp))) = None"
    by code_simp+
  from r1 r2 e1 e2 show ?thesis by (intro conjI)
qed

end
